theory Spec2Isabelle
  imports Main
begin

section \<open>The polyhedral kernel: values the driver handles\<close>

text \<open>
  The program is glue around a polyhedral kernel (isl) and a front-end (pet).  The kernel's
  objects are modelled by what they denote.  A statement instance is a tuple name with its
  integer coordinates; the space of an instance is its name and its number of coordinates.
  A union set is a set of instances, a union map a relation between instances.  Schedule
  points are instances of the anonymous tuple.  Parameters are read at one fixed valuation.
\<close>

type_synonym point = "int list"
type_synonym inst = "string \<times> point"
type_synonym space = "string \<times> nat"
type_synonym union_set = "inst set"
type_synonym union_map = "(inst \<times> inst) set"

definition space_of :: "inst \<Rightarrow> space" where
  "space_of x = (fst x, length (snd x))"

text \<open>The kernel's three-valued boolean: \<open>isl_bool_error\<close> is -1 in C.\<close>

datatype isl_bool = isl_bool_error | isl_bool_false | isl_bool_true

fun int_of_isl_bool :: "isl_bool \<Rightarrow> int" where
  "int_of_isl_bool isl_bool_error = -1"
| "int_of_isl_bool isl_bool_false = 0"
| "int_of_isl_bool isl_bool_true = 1"

text \<open>
  Conversion of a wider C integer (\<open>size_t\<close>, \<open>long\<close>) to \<open>int\<close>, as it happens where the
  source passes one to an \<open>int\<close> parameter: the value modulo \<open>2^32\<close>, read as a signed
  32-bit number.
\<close>

definition to_int :: "int \<Rightarrow> int" where
  "to_int v = (v + 2147483648) mod 4294967296 - 2147483648"

subsection \<open>Piecewise affine functions\<close>

text \<open>
  An \<open>isl_set\<close> lives in one space.  An \<open>isl_pw_aff\<close> is a partial integer function on
  the points of one space: \<open>None\<close> outside its domain.  An \<open>isl_union_pw_aff\<close> holds one
  such function per space; the list order is the order in which the kernel enumerates them.
  An \<open>isl_multi_union_pw_aff\<close> is a tuple of these, one per output dimension, with an
  optional identifier of the output tuple.
\<close>

type_synonym isl_set = "space \<times> (point \<Rightarrow> bool)"
type_synonym pw_aff = "space \<times> (point \<Rightarrow> int option)"
type_synonym union_pw_aff = "pw_aff list"

record multi_union_pw_aff =
  tuple_id :: "string option"
  upa_list :: "union_pw_aff list"

subsection \<open>Schedule trees\<close>

datatype isl_ast_loop_type =
  isl_ast_loop_default | isl_ast_loop_atomic | isl_ast_loop_unroll | isl_ast_loop_separate

record band =
  mupa :: multi_union_pw_aff
  permutable :: bool
  coincident :: "bool list"
  ast_loop_type :: "isl_ast_loop_type list"

datatype tree =
    Leaf
  | Domain union_set tree
  | Context "point \<Rightarrow> bool" tree
  | Band band tree
  | Sequence "tree list"
  | SetNode "tree list"
  | Filter union_set tree
  | Mark string tree

datatype isl_schedule_node_type =
    isl_schedule_node_band | isl_schedule_node_context | isl_schedule_node_domain
  | isl_schedule_node_filter | isl_schedule_node_leaf | isl_schedule_node_mark
  | isl_schedule_node_sequence | isl_schedule_node_set

fun tree_type :: "tree \<Rightarrow> isl_schedule_node_type" where
  "tree_type Leaf = isl_schedule_node_leaf"
| "tree_type (Domain _ _) = isl_schedule_node_domain"
| "tree_type (Context _ _) = isl_schedule_node_context"
| "tree_type (Band _ _) = isl_schedule_node_band"
| "tree_type (Sequence _) = isl_schedule_node_sequence"
| "tree_type (SetNode _) = isl_schedule_node_set"
| "tree_type (Filter _ _) = isl_schedule_node_filter"
| "tree_type (Mark _ _) = isl_schedule_node_mark"

text \<open>
  The kernel never stores a leaf as a child.  A node that is not a leaf and has no stored
  children has one child all the same, an implicit leaf.  \<open>children\<close> is the stored list.
\<close>

fun is_leaf :: "tree \<Rightarrow> bool" where
  "is_leaf Leaf = True"
| "is_leaf _ = False"

fun children :: "tree \<Rightarrow> tree list" where
  "children Leaf = []"
| "children (Domain _ c) = (if is_leaf c then [] else [c])"
| "children (Context _ c) = (if is_leaf c then [] else [c])"
| "children (Band _ c) = (if is_leaf c then [] else [c])"
| "children (Sequence cs) = cs"
| "children (SetNode cs) = cs"
| "children (Filter _ c) = (if is_leaf c then [] else [c])"
| "children (Mark _ c) = (if is_leaf c then [] else [c])"

definition only_child :: "tree list \<Rightarrow> tree" where
  "only_child cs = (case cs of [] \<Rightarrow> Leaf | c # _ \<Rightarrow> c)"

fun set_children :: "tree \<Rightarrow> tree list \<Rightarrow> tree" where
  "set_children Leaf _ = Leaf"
| "set_children (Domain d _) cs = Domain d (only_child cs)"
| "set_children (Context g _) cs = Context g (only_child cs)"
| "set_children (Band b _) cs = Band b (only_child cs)"
| "set_children (Sequence _) cs = Sequence cs"
| "set_children (SetNode _) cs = SetNode cs"
| "set_children (Filter f _) cs = Filter f (only_child cs)"
| "set_children (Mark m _) cs = Mark m (only_child cs)"

text \<open>
  \<open>isl_schedule_node_n_children\<close>: none for a leaf, one (the implicit leaf) for a node
  without stored children, the length of the stored list otherwise.
\<close>

definition n_children :: "tree \<Rightarrow> nat" where
  "n_children t =
     (if is_leaf t then 0 else if children t = [] then 1 else length (children t))"

text \<open>
  The child at a position, as \<open>isl_schedule_node_child\<close> finds it: a leaf has no
  children; below a node without stored children the kernel hands out the implicit leaf
  without looking at the position; in a stored list the position must be an index of the
  list.  Positions are C \<open>int\<close>s.
\<close>

definition child_tree :: "tree \<Rightarrow> int \<Rightarrow> tree option" where
  "child_tree t pos =
     (if is_leaf t then None
      else if children t = [] then Some Leaf
      else if 0 \<le> pos \<and> pos < int (length (children t)) then Some (children t ! nat pos)
      else None)"

text \<open>
  \<open>isl_schedule_tree_replace_child\<close>.  A leaf put in place of the only stored child
  empties the list, and is refused when the list has another length (unless the list is
  empty and the position is 0, where nothing changes).  Any other tree becomes the first
  stored child of an empty list at position 0, and otherwise replaces the element of the
  list at the position, which must exist.
\<close>

definition replace_child :: "tree \<Rightarrow> int \<Rightarrow> tree \<Rightarrow> tree option" where
  "replace_child t pos child =
     (if is_leaf child then
        (if children t = [] \<and> pos = 0 then Some t
         else if length (children t) \<noteq> 1 then None
         else Some (set_children t []))
      else if children t = [] \<and> pos = 0 then Some (set_children t [child])
      else if 0 \<le> pos \<and> pos < int (length (children t))
        then Some (set_children t ((children t)[nat pos := child]))
      else None)"

text \<open>
  The subtree at a path of child positions, and the tree with that subtree replaced: the
  kernel rebuilds the ancestors from the bottom up with \<open>replace_child\<close>.
\<close>

fun subtree_at :: "tree \<Rightarrow> int list \<Rightarrow> tree option" where
  "subtree_at t [] = Some t"
| "subtree_at t (i # p) =
     (case child_tree t i of None \<Rightarrow> None | Some c \<Rightarrow> subtree_at c p)"

fun graft :: "tree \<Rightarrow> int list \<Rightarrow> tree \<Rightarrow> tree option" where
  "graft t [] new = Some new"
| "graft t (i # p) new =
     (case child_tree t i of
        None \<Rightarrow> None
      | Some c \<Rightarrow>
          (case graft c p new of None \<Rightarrow> None | Some c' \<Rightarrow> replace_child t i c'))"

text \<open>
  A subtree is anchored when it holds a node that refers to the outer schedule; of the
  node types of this development only context nodes do.
\<close>

fun anchored :: "tree \<Rightarrow> bool" where
  "anchored Leaf = False"
| "anchored (Domain _ c) = anchored c"
| "anchored (Context _ _) = True"
| "anchored (Band _ c) = anchored c"
| "anchored (Sequence cs) = (\<exists>c \<in> set cs. anchored c)"
| "anchored (SetNode cs) = (\<exists>c \<in> set cs. anchored c)"
| "anchored (Filter _ c) = anchored c"
| "anchored (Mark _ c) = anchored c"

subsection \<open>Schedule nodes: a tree and a path to the focused node\<close>

text \<open>
  The context carries the kernel's options that the transformations read.  A kernel
  function that fails returns the null pointer, here \<open>None\<close>; a null argument makes every
  kernel function return null, which \<open>Option.bind\<close> expresses at the call sites.
\<close>

record isl_ctx =
  tile_scale_tile_loops :: bool
  tile_shift_point_loops :: bool

record isl_schedule_node =
  node_ctx :: isl_ctx
  node_root :: tree
  node_path :: "int list"

record isl_schedule =
  schedule_ctx :: isl_ctx
  schedule_root :: tree

definition node_tree :: "isl_schedule_node \<Rightarrow> tree option" where
  "node_tree n = subtree_at (node_root n) (node_path n)"

definition isl_schedule_node_graft_tree :: "isl_schedule_node \<Rightarrow> tree \<Rightarrow> isl_schedule_node option" where
  "isl_schedule_node_graft_tree n t =
     map_option (\<lambda>r. n\<lparr>node_root := r\<rparr>) (graft (node_root n) (node_path n) t)"

definition isl_schedule_node_get_schedule :: "isl_schedule_node option \<Rightarrow> isl_schedule option" where
  "isl_schedule_node_get_schedule n =
     map_option (\<lambda>n. \<lparr>schedule_ctx = node_ctx n, schedule_root = node_root n\<rparr>) n"

definition isl_schedule_get_ctx :: "isl_schedule option \<Rightarrow> isl_ctx option" where
  "isl_schedule_get_ctx s = map_option schedule_ctx s"

definition isl_schedule_node_root :: "isl_schedule_node \<Rightarrow> isl_schedule_node option" where
  "isl_schedule_node_root n = Some (n\<lparr>node_path := []\<rparr>)"

definition isl_schedule_node_parent :: "isl_schedule_node \<Rightarrow> isl_schedule_node option" where
  "isl_schedule_node_parent n =
     (if node_path n = [] then None else Some (n\<lparr>node_path := butlast (node_path n)\<rparr>))"

definition isl_schedule_node_child :: "isl_schedule_node \<Rightarrow> int \<Rightarrow> isl_schedule_node option" where
  "isl_schedule_node_child n pos =
     (case node_tree n of
        None \<Rightarrow> None
      | Some t \<Rightarrow>
          (case child_tree t pos of
             None \<Rightarrow> None
           | Some c \<Rightarrow> Some (n\<lparr>node_path := node_path n @ [pos]\<rparr>)))"

definition isl_schedule_node_first_child :: "isl_schedule_node \<Rightarrow> isl_schedule_node option" where
  "isl_schedule_node_first_child n = isl_schedule_node_child n 0"

subsection \<open>Band nodes: reading, deleting and inserting\<close>

definition parent_tree :: "isl_schedule_node \<Rightarrow> tree option" where
  "parent_tree n =
     (if node_path n = [] then None else subtree_at (node_root n) (butlast (node_path n)))"

definition is_set_or_sequence :: "tree option \<Rightarrow> bool" where
  "is_set_or_sequence t =
     (case t of Some (Sequence _) \<Rightarrow> True | Some (SetNode _) \<Rightarrow> True | _ \<Rightarrow> False)"

definition isl_schedule_node_band_get_partial_schedule ::
  "isl_schedule_node \<Rightarrow> multi_union_pw_aff option" where
  "isl_schedule_node_band_get_partial_schedule n =
     (case node_tree n of Some (Band b _) \<Rightarrow> Some (mupa b) | _ \<Rightarrow> None)"

text \<open>
  \<open>isl_schedule_node_delete\<close> refuses the root, a node that does not have exactly one
  child, a child of a set or sequence node and a band with an anchored subtree.  The node
  it returns points to the child that has taken the place of the deleted node.
\<close>

definition isl_schedule_node_delete :: "isl_schedule_node \<Rightarrow> isl_schedule_node option" where
  "isl_schedule_node_delete n =
     (case node_tree n of
        None \<Rightarrow> None
      | Some t \<Rightarrow>
          if node_path n = [] then None
          else if n_children t \<noteq> 1 then None
          else if is_set_or_sequence (parent_tree n) then None
          else if tree_type t = isl_schedule_node_band \<and> anchored t then None
          else Option.bind (child_tree t 0) (isl_schedule_node_graft_tree n))"

text \<open>
  A band made from a partial schedule alone is not permutable, has no coincident member and
  the default loop type in every member.
\<close>

definition isl_schedule_band_from_multi_union_pw_aff :: "multi_union_pw_aff \<Rightarrow> band" where
  "isl_schedule_band_from_multi_union_pw_aff m =
     \<lparr>mupa = m, permutable = False,
      coincident = replicate (length (upa_list m)) False,
      ast_loop_type = replicate (length (upa_list m)) isl_ast_loop_default\<rparr>"

text \<open>
  \<open>isl_schedule_node_insert_partial_schedule\<close> puts a new band between the node and its
  parent and returns a node that points to the new band.  It refuses the root, a child of a
  set or sequence node and an anchored subtree.
\<close>

definition isl_schedule_node_insert_partial_schedule ::
  "isl_schedule_node \<Rightarrow> multi_union_pw_aff \<Rightarrow> isl_schedule_node option" where
  "isl_schedule_node_insert_partial_schedule n m =
     (case node_tree n of
        None \<Rightarrow> None
      | Some t \<Rightarrow>
          if node_path n = [] then None
          else if is_set_or_sequence (parent_tree n) then None
          else if anchored t then None
          else isl_schedule_node_graft_tree n (Band (isl_schedule_band_from_multi_union_pw_aff m) t))"

subsection \<open>Arithmetic on piecewise affine functions\<close>

definition pw_aff_map :: "(int \<Rightarrow> int) \<Rightarrow> pw_aff \<Rightarrow> pw_aff" where
  "pw_aff_map g pa = (fst pa, \<lambda>x. map_option g (snd pa x))"

text \<open>A binary operation on two functions of one space is defined where both are.\<close>

definition pw_aff_bin :: "(int \<Rightarrow> int \<Rightarrow> int) \<Rightarrow> pw_aff \<Rightarrow> (point \<Rightarrow> int option) \<Rightarrow> pw_aff" where
  "pw_aff_bin h pa g =
     (fst pa, \<lambda>x. case snd pa x of
                     None \<Rightarrow> None
                   | Some a \<Rightarrow> (case g x of None \<Rightarrow> None | Some b \<Rightarrow> Some (h a b)))"

definition union_pw_aff_map :: "(int \<Rightarrow> int) \<Rightarrow> union_pw_aff \<Rightarrow> union_pw_aff" where
  "union_pw_aff_map g u = map (pw_aff_map g) u"

text \<open>
  On union functions a binary operation combines the pieces that live in the same space
  and drops the pieces of the first operand that have no partner in the second.
\<close>

definition union_pw_aff_bin ::
  "(int \<Rightarrow> int \<Rightarrow> int) \<Rightarrow> union_pw_aff \<Rightarrow> union_pw_aff \<Rightarrow> union_pw_aff" where
  "union_pw_aff_bin h u1 u2 =
     List.map_filter (\<lambda>pa. map_option (pw_aff_bin h pa) (map_of u2 (fst pa))) u1"

definition isl_union_pw_aff_add :: "union_pw_aff \<Rightarrow> union_pw_aff \<Rightarrow> union_pw_aff" where
  "isl_union_pw_aff_add = union_pw_aff_bin (+)"

definition isl_union_pw_aff_sub :: "union_pw_aff \<Rightarrow> union_pw_aff \<Rightarrow> union_pw_aff" where
  "isl_union_pw_aff_sub = union_pw_aff_bin (-)"

definition isl_union_pw_aff_scale_val :: "union_pw_aff \<Rightarrow> int \<Rightarrow> union_pw_aff" where
  "isl_union_pw_aff_scale_val u v = union_pw_aff_map (\<lambda>d. v * d) u"

text \<open>
  The kernel divides by the size (\<open>isl_union_pw_aff_scale_down_val\<close>) and takes the greatest
  integer part (\<open>isl_union_pw_aff_floor\<close>); on integers the two steps are \<open>div\<close>.
\<close>

definition union_pw_aff_scale_down_floor :: "union_pw_aff \<Rightarrow> int \<Rightarrow> union_pw_aff" where
  "union_pw_aff_scale_down_floor u v = union_pw_aff_map (\<lambda>d. d div v) u"

definition isl_multi_union_pw_aff_add ::
  "multi_union_pw_aff \<Rightarrow> multi_union_pw_aff \<Rightarrow> multi_union_pw_aff" where
  "isl_multi_union_pw_aff_add m1 m2 =
     m1\<lparr>upa_list := map2 isl_union_pw_aff_add (upa_list m1) (upa_list m2)\<rparr>"

definition isl_multi_union_pw_aff_sub ::
  "multi_union_pw_aff \<Rightarrow> multi_union_pw_aff \<Rightarrow> multi_union_pw_aff" where
  "isl_multi_union_pw_aff_sub m1 m2 =
     m1\<lparr>upa_list := map2 isl_union_pw_aff_sub (upa_list m1) (upa_list m2)\<rparr>"

subsection \<open>Tiling a band\<close>

text \<open>
  The space of a band is its output tuple: identifier and number of members.  A multi-value
  is a tuple of integers in such a space; \<open>isl_multi_val_from_val_list\<close> refuses a list whose
  length is not the dimension of the space.
\<close>

type_synonym band_space = "string option \<times> nat"
type_synonym multi_val = "band_space \<times> int list"

definition band_space_of :: "multi_union_pw_aff \<Rightarrow> band_space" where
  "band_space_of m = (tuple_id m, length (upa_list m))"

definition isl_schedule_node_band_get_space :: "isl_schedule_node \<Rightarrow> band_space option" where
  "isl_schedule_node_band_get_space n =
     (case node_tree n of Some (Band b _) \<Rightarrow> Some (band_space_of (mupa b)) | _ \<Rightarrow> None)"

definition isl_multi_val_from_val_list :: "band_space \<Rightarrow> int list \<Rightarrow> multi_val option" where
  "isl_multi_val_from_val_list sp vs = (if snd sp = length vs then Some (sp, vs) else None)"

text \<open>
  The tile loops: member \<open>d\<close> becomes \<open>floor (d / s)\<close>, times \<open>s\<close> when the option
  \<open>tile_scale_tile_loops\<close> is set.
\<close>

definition isl_multi_union_pw_aff_tile ::
  "isl_ctx \<Rightarrow> multi_union_pw_aff \<Rightarrow> multi_val \<Rightarrow> multi_union_pw_aff" where
  "isl_multi_union_pw_aff_tile ctx sched sizes =
     sched\<lparr>upa_list :=
       map2 (\<lambda>upa v.
               let upa = union_pw_aff_scale_down_floor upa v
               in if tile_scale_tile_loops ctx then isl_union_pw_aff_scale_val upa v else upa)
            (upa_list sched) (snd sizes)\<rparr>"

definition isl_schedule_band_tile :: "isl_ctx \<Rightarrow> band \<Rightarrow> multi_val \<Rightarrow> band" where
  "isl_schedule_band_tile ctx b sizes = b\<lparr>mupa := isl_multi_union_pw_aff_tile ctx (mupa b) sizes\<rparr>"

text \<open>
  The point loops: the band itself when \<open>tile_shift_point_loops\<close> is off, else the band
  minus the tile loops, the latter scaled by the sizes when they were not scaled already.
\<close>

definition isl_schedule_band_point :: "isl_ctx \<Rightarrow> band \<Rightarrow> band \<Rightarrow> multi_val \<Rightarrow> band" where
  "isl_schedule_band_point ctx b tile sizes =
     (if \<not> tile_shift_point_loops ctx then b
      else
        let scaled = mupa tile;
            scaled = (if \<not> tile_scale_tile_loops ctx
                      then scaled\<lparr>upa_list := map2 isl_union_pw_aff_scale_val (upa_list scaled) (snd sizes)\<rparr>
                      else scaled)
        in b\<lparr>mupa := isl_multi_union_pw_aff_sub (mupa b) scaled\<rparr>)"

text \<open>
  \<open>isl_schedule_node_band_tile\<close> refuses a node that is not a band, an anchored subtree,
  sizes in another space and a size that is not positive.  The band keeps its position and
  becomes the band of the tile loops; its only child is the band of the point loops, above
  the former child.  Both bands keep the properties of the original.
\<close>

definition isl_schedule_node_band_tile :: "isl_schedule_node \<Rightarrow> multi_val \<Rightarrow> isl_schedule_node option" where
  "isl_schedule_node_band_tile n sizes =
     (case node_tree n of
        Some (Band b c) \<Rightarrow>
          if anchored (Band b c) then None
          else if fst sizes \<noteq> band_space_of (mupa b) then None
          else if \<exists>v \<in> set (snd sizes). v \<le> 0 then None
          else
            let tile = isl_schedule_band_tile (node_ctx n) b sizes;
                point = isl_schedule_band_point (node_ctx n) b tile sizes
            in isl_schedule_node_graft_tree n (Band tile (Band point c))
      | _ \<Rightarrow> None)"

subsection \<open>Shifting a band\<close>

text \<open>
  \<open>isl_schedule_node_band_shift\<close> adds the shift to the partial schedule of the band.  It
  refuses a node that is not a band, a shift in another space than the band's and an
  anchored subtree.
\<close>

definition isl_schedule_node_band_shift ::
  "isl_schedule_node \<Rightarrow> multi_union_pw_aff \<Rightarrow> isl_schedule_node option" where
  "isl_schedule_node_band_shift n shift =
     (case node_tree n of
        Some (Band b c) \<Rightarrow>
          if band_space_of (mupa b) \<noteq> band_space_of shift then None
          else if anchored (Band b c) then None
          else isl_schedule_node_graft_tree n
                 (Band (b\<lparr>mupa := isl_multi_union_pw_aff_add (mupa b) shift\<rparr>) c)
      | _ \<Rightarrow> None)"

text \<open>The domain of a union function, as the list of its sets, one per space.\<close>

definition union_pw_aff_domain_set_list :: "union_pw_aff \<Rightarrow> isl_set list" where
  "union_pw_aff_domain_set_list u = map (\<lambda>pa. (fst pa, \<lambda>x. snd pa x \<noteq> None)) u"

text \<open>
  \<open>isl_union_pw_aff_add_pw_aff\<close> adds a piece that must live in a space of its own; a null
  argument gives null.
\<close>

definition isl_union_pw_aff_add_pw_aff ::
  "union_pw_aff option \<Rightarrow> pw_aff option \<Rightarrow> union_pw_aff option" where
  "isl_union_pw_aff_add_pw_aff upa pa =
     (case (upa, pa) of
        (Some u, Some p) \<Rightarrow> if fst p \<in> fst ` set u then None else Some (u @ [p])
      | _ \<Rightarrow> None)"

section \<open>Transformation primitives\<close>

definition tadashi_interchange :: "isl_schedule_node \<Rightarrow> isl_schedule_node option" where
  "tadashi_interchange node =
     Option.bind (isl_schedule_node_band_get_partial_schedule node) (\<lambda>mupa.
     Option.bind (isl_schedule_node_delete node) (\<lambda>node.
     Option.bind (isl_schedule_node_first_child node) (\<lambda>node.
     isl_schedule_node_insert_partial_schedule node mupa)))"

definition tadashi_tile :: "isl_schedule_node \<Rightarrow> int \<Rightarrow> isl_schedule_node option" where
  "tadashi_tile node tile_size =
     Option.bind (isl_schedule_node_band_get_space node) (\<lambda>space.
     Option.bind (isl_multi_val_from_val_list space [tile_size]) (\<lambda>sizes.
     isl_schedule_node_band_tile node sizes))"

text \<open>
  The two ways to build the shift of one piece.  \<open>_pa_val\<close> is the constant on the set.
  \<open>_pa_id\<close> drops the set and returns coordinate \<open>id_idx\<close> of the identity on the whole
  space; its \<open>long\<close> argument becomes the \<open>int\<close> position of \<open>isl_multi_aff_get_at\<close>, and the
  kernel refuses a position that is not a coordinate of the space.
\<close>

definition pa_val :: "isl_set \<Rightarrow> int \<Rightarrow> pw_aff option" where
  "pa_val set' val = Some (fst set', \<lambda>x. if snd set' x then Some val else None)"

definition pa_id :: "isl_set \<Rightarrow> int \<Rightarrow> pw_aff option" where
  "pa_id set' id_idx =
     (let ndims = snd (fst set');
          pos = to_int id_idx
      in if 0 \<le> pos \<and> pos < int ndims
         then Some (fst set', \<lambda>x. if length x = ndims then Some (x ! nat pos) else None)
         else None)"

text \<open>
  A failed \<open>assert\<close> ends the process: the function does not return.  \<open>Returned\<close> carries
  what the function returns otherwise, which may be the null pointer.
\<close>

datatype 'a outcome = Aborted | Returned 'a

text \<open>The loop of \<open>_shift_partial\<close> over the sets, from position \<open>set_idx\<close> on.\<close>

fun shift_partial_loop ::
  "(isl_set \<Rightarrow> int \<Rightarrow> pw_aff option) \<Rightarrow> int \<Rightarrow> int \<Rightarrow> isl_set list \<Rightarrow> nat
     \<Rightarrow> union_pw_aff option \<Rightarrow> union_pw_aff option" where
  "shift_partial_loop fn idx const_val [] set_idx upa = upa"
| "shift_partial_loop fn idx const_val (set' # sets) set_idx upa =
     (let pa = (if idx = int set_idx then fn set' const_val else pa_val set' 0);
          upa = isl_union_pw_aff_add_pw_aff upa pa
      in shift_partial_loop fn idx const_val sets (Suc set_idx) upa)"

text \<open>
  \<open>_shift_partial\<close>.  The dimension of a null partial schedule is the error value -1.
  \<open>isl_multi_union_pw_aff_get_tuple_id\<close> gives null for a tuple without identifier, and
  setting a null identifier gives a null shift.
\<close>

definition shift_partial ::
  "isl_schedule_node \<Rightarrow> (isl_set \<Rightarrow> int \<Rightarrow> pw_aff option) \<Rightarrow> int \<Rightarrow> int
     \<Rightarrow> isl_schedule_node option outcome" where
  "shift_partial node fn idx const_val =
     (let mupa = isl_schedule_node_band_get_partial_schedule node;
          id = Option.bind mupa tuple_id;
          mupa_dim = (case mupa of None \<Rightarrow> -1 | Some m \<Rightarrow> int (length (upa_list m)))
      in if mupa_dim \<noteq> 1 then Aborted
         else Returned
           (Option.bind mupa (\<lambda>m.
              let upa = hd (upa_list m);
                  pa_domains = union_pw_aff_domain_set_list upa;
                  upa = shift_partial_loop fn idx const_val pa_domains 0 (Some [])
              in Option.bind upa (\<lambda>u.
                 Option.bind id (\<lambda>i.
                 isl_schedule_node_band_shift node \<lparr>tuple_id = Some i, upa_list = [u]\<rparr>)))))"

definition tadashi_partial_shift_var ::
  "isl_schedule_node \<Rightarrow> int \<Rightarrow> int \<Rightarrow> isl_schedule_node option outcome" where
  "tadashi_partial_shift_var node pa_idx id_idx = shift_partial node pa_id pa_idx id_idx"

definition tadashi_partial_shift_val ::
  "isl_schedule_node \<Rightarrow> int \<Rightarrow> int \<Rightarrow> isl_schedule_node option outcome" where
  "tadashi_partial_shift_val node pa_idx id_idx = shift_partial node pa_val pa_idx id_idx"

definition tadashi_full_shift_var ::
  "isl_schedule_node \<Rightarrow> int \<Rightarrow> int \<Rightarrow> isl_schedule_node option outcome" where
  "tadashi_full_shift_var node pa_idx id_idx = shift_partial node pa_id pa_idx id_idx"

definition tadashi_full_shift_val ::
  "isl_schedule_node \<Rightarrow> int \<Rightarrow> int \<Rightarrow> isl_schedule_node option outcome" where
  "tadashi_full_shift_val node pa_idx id_idx = shift_partial node pa_val pa_idx id_idx"

section \<open>The legality oracle\<close>

text \<open>The kernel's operations on relations that \<open>check_legality\<close> calls.\<close>

definition isl_union_map_apply_domain :: "union_map \<Rightarrow> union_map \<Rightarrow> union_map" where
  "isl_union_map_apply_domain umap1 umap2 = converse umap2 O umap1"

definition isl_union_map_apply_range :: "union_map \<Rightarrow> union_map \<Rightarrow> union_map" where
  "isl_union_map_apply_range umap1 umap2 = umap1 O umap2"

definition tuple_diff :: "inst \<Rightarrow> inst \<Rightarrow> inst" where
  "tuple_diff y x = (fst x, map2 (-) (snd y) (snd x))"

text \<open>Only pairs within one space have a difference.\<close>

definition isl_union_map_deltas :: "union_map \<Rightarrow> union_set" where
  "isl_union_map_deltas umap =
     (\<lambda>(x, y). tuple_diff y x) ` {(x, y) \<in> umap. space_of x = space_of y}"

text \<open>\<open>isl_set_from_union_set\<close> wants the elements to live in exactly one space.\<close>

definition isl_set_from_union_set :: "union_set \<Rightarrow> union_set option" where
  "isl_set_from_union_set uset = (if is_singleton (space_of ` uset) then Some uset else None)"

definition isl_set_get_space :: "union_set \<Rightarrow> space" where
  "isl_set_get_space set' = the_elem (space_of ` set')"

definition isl_multi_aff_zero :: "space \<Rightarrow> inst" where
  "isl_multi_aff_zero sp = (fst sp, replicate (snd sp) 0)"

fun lex_lt :: "point \<Rightarrow> point \<Rightarrow> bool" where
  "lex_lt (a # as) (b # bs) = (a < b \<or> (a = b \<and> lex_lt as bs))"
| "lex_lt _ _ = False"

fun lex_le :: "point \<Rightarrow> point \<Rightarrow> bool" where
  "lex_le (a # as) (b # bs) = (a < b \<or> (a = b \<and> lex_le as bs))"
| "lex_le [] [] = True"
| "lex_le _ _ = False"

definition isl_union_set_lex_le_union_set :: "union_set \<Rightarrow> union_set \<Rightarrow> union_map" where
  "isl_union_set_lex_le_union_set uset1 uset2 =
     {(a, b) \<in> uset1 \<times> uset2. space_of a = space_of b \<and> lex_le (snd a) (snd b)}"

definition get_zeros_on_union_set :: "union_set \<Rightarrow> union_set option" where
  "get_zeros_on_union_set delta_uset =
     (case isl_set_from_union_set delta_uset of
        None \<Rightarrow> None
      | Some delta_set \<Rightarrow> Some {isl_multi_aff_zero (isl_set_get_space delta_set)})"

definition check_legality :: "union_map \<Rightarrow> union_map \<Rightarrow> isl_bool" where
  "check_legality schedule_map dep =
     (if dep = {} then isl_bool_true
      else
        let domain = isl_union_map_apply_domain dep schedule_map;
            domain = isl_union_map_apply_range domain schedule_map;
            delta = isl_union_map_deltas domain
        in case get_zeros_on_union_set delta of
             None \<Rightarrow> isl_bool_error
           | Some zeros \<Rightarrow>
               let le = isl_union_set_lex_le_union_set delta zeros
               in if le = {} then isl_bool_true else isl_bool_false)"

text \<open>
  The delta set in the words of the specification: the differences
  \<open>S(sink) - S(source)\<close> of the schedule points of the two ends of a dependence.
\<close>

definition Delta :: "union_map \<Rightarrow> union_map \<Rightarrow> point set" where
  "Delta S D =
     {d. \<exists>source sink p q. (source, sink) \<in> D \<and> (source, p) \<in> S \<and> (sink, q) \<in> S
           \<and> d = map2 (-) (snd q) (snd p)}"

section \<open>The session manager\<close>

text \<open>
  \<open>struct scop_t\<close>: the front-end's SCoP (opaque here), the dependence relation, the
  current node, the scratch node (null when absent), the modified flag and the strings
  handed out to the driver.  Each driver operation starts with
  \<open>si = &SCOPS_POOL[0][scop_idx]\<close>; the model takes the selected record as its state
  and returns it updated.
\<close>

record 'scop scop_t =
  scop :: 'scop
  dependency :: union_map
  current_node :: "isl_schedule_node option"
  tmp_node :: "isl_schedule_node option"
  modified :: bool
  strings :: "string list"

definition goto_root :: "'scop scop_t \<Rightarrow> 'scop scop_t" where
  "goto_root si = si\<lparr>current_node := Option.bind (current_node si) isl_schedule_node_root\<rparr>"

definition goto_parent :: "'scop scop_t \<Rightarrow> 'scop scop_t" where
  "goto_parent si = si\<lparr>current_node := Option.bind (current_node si) isl_schedule_node_parent\<rparr>"

text \<open>
  \<open>goto_child\<close> takes the index as a \<open>size_t\<close> and hands it to the kernel's \<open>int\<close> position.
\<close>

definition goto_child :: "'scop scop_t \<Rightarrow> nat \<Rightarrow> 'scop scop_t" where
  "goto_child si child_idx =
     si\<lparr>current_node :=
          Option.bind (current_node si)
            (\<lambda>n. isl_schedule_node_child n (to_int (int child_idx)))\<rparr>"

definition pre_transform :: "'scop scop_t \<Rightarrow> 'scop scop_t" where
  "pre_transform si =
     (let si = (if tmp_node si \<noteq> None then si\<lparr>tmp_node := None\<rparr> else si)
      in si\<lparr>tmp_node := current_node si\<rparr>)"

text \<open>
  \<open>tadashi_check_legality\<close> comes from \<open>legality.h\<close>, whose definitions are not among the
  sources of this development; it is a parameter of the model, of this type.
\<close>

type_synonym legality_oracle = "isl_ctx option \<Rightarrow> isl_schedule option \<Rightarrow> union_map \<Rightarrow> isl_bool"

definition post_transform :: "legality_oracle \<Rightarrow> 'scop scop_t \<Rightarrow> 'scop scop_t \<times> int" where
  "post_transform tadashi_check_legality si =
     (let sched = isl_schedule_node_get_schedule (tmp_node si);
          ctx = isl_schedule_get_ctx sched;
          legal = tadashi_check_legality ctx sched (dependency si);
          si = si\<lparr>modified := True\<rparr>;
          node = current_node si;
          si = si\<lparr>current_node := tmp_node si\<rparr>;
          si = si\<lparr>tmp_node := node\<rparr>
      in (si, int_of_isl_bool legal))"

definition rollback :: "'scop scop_t \<Rightarrow> 'scop scop_t" where
  "rollback si =
     (let tmp = tmp_node si;
          si = si\<lparr>tmp_node := current_node si\<rparr>
      in si\<lparr>current_node := tmp\<rparr>)"

text \<open>
  Every transformation of the driver has one shape: \<open>pre_transform\<close>, the primitive on the
  scratch node, \<open>post_transform\<close>.  \<open>transform\<close> is that shape for a primitive \<open>P\<close>.
\<close>

definition transform ::
  "legality_oracle \<Rightarrow> (isl_schedule_node \<Rightarrow> isl_schedule_node option) \<Rightarrow> 'scop scop_t
     \<Rightarrow> 'scop scop_t \<times> int" where
  "transform tadashi_check_legality P si =
     (let si = pre_transform si;
          si = si\<lparr>tmp_node := Option.bind (tmp_node si) P\<rparr>
      in post_transform tadashi_check_legality si)"

text \<open>
  The driver's \<open>tile\<close> takes the size as a \<open>size_t\<close> and hands it to the \<open>int\<close> parameter of
  \<open>tadashi_tile\<close>.
\<close>

definition tile :: "legality_oracle \<Rightarrow> 'scop scop_t \<Rightarrow> nat \<Rightarrow> 'scop scop_t \<times> int" where
  "tile tadashi_check_legality si tile_size =
     transform tadashi_check_legality (\<lambda>node. tadashi_tile node (to_int (int tile_size))) si"

definition interchange :: "legality_oracle \<Rightarrow> 'scop scop_t \<Rightarrow> 'scop scop_t \<times> int" where
  "interchange tadashi_check_legality si = transform tadashi_check_legality tadashi_interchange si"

text \<open>
  \<open>set_parallel\<close> has the same shape with its own oracle, which it asks about the first
  child of the candidate.  \<open>tadashi_set_parallel\<close> and \<open>tadashi_check_legality_parallel\<close>
  are defined outside the sources of this development and are parameters.
\<close>

type_synonym parallel_oracle =
  "isl_ctx option \<Rightarrow> isl_schedule_node option \<Rightarrow> union_map \<Rightarrow> isl_bool"

definition set_parallel ::
  "parallel_oracle \<Rightarrow> (isl_schedule_node \<Rightarrow> isl_schedule_node option) \<Rightarrow> 'scop scop_t
     \<Rightarrow> 'scop scop_t \<times> int" where
  "set_parallel tadashi_check_legality_parallel tadashi_set_parallel si =
     (let si = pre_transform si;
          si = si\<lparr>tmp_node := Option.bind (tmp_node si) tadashi_set_parallel\<rparr>;
          node = tmp_node si;
          ctx = map_option node_ctx node;
          node = Option.bind node isl_schedule_node_first_child;
          legal = tadashi_check_legality_parallel ctx node (dependency si);
          si = si\<lparr>modified := True\<rparr>;
          node = current_node si;
          si = si\<lparr>current_node := tmp_node si\<rparr>;
          si = si\<lparr>tmp_node := node\<rparr>
      in (si, int_of_isl_bool legal))"

subsection \<open>Code emission\<close>

text \<open>
  \<open>generate_code_callback\<close> is called by the front-end once per SCoP with the printer, the
  SCoP it has just parsed and the running index into the pool; \<open>scop_info\<close> is the record
  at that index.  The front-end's \<open>pet_scop_print_original\<close> and the code generator
  \<open>codegen\<close> are parameters.  The result is the printer and the index afterwards.
\<close>

definition generate_code_callback ::
  "('scop \<Rightarrow> 'printer \<Rightarrow> 'printer option) \<Rightarrow>
   ('printer \<Rightarrow> 'scop \<Rightarrow> isl_schedule option \<Rightarrow> 'printer option) \<Rightarrow>
   'printer option \<Rightarrow> 'scop option \<Rightarrow> 'scop scop_t \<Rightarrow> nat \<Rightarrow> 'printer option \<times> nat" where
  "generate_code_callback pet_scop_print_original codegen p scop' scop_info scop_idx =
     (case (scop', p) of
        (Some sc, Some pr) \<Rightarrow>
          (if \<not> modified scop_info then pet_scop_print_original sc pr
           else codegen pr (scop scop_info)
                  (isl_schedule_node_get_schedule (current_node scop_info)),
           scop_idx + 1)
      | _ \<Rightarrow> (None, scop_idx))"

section \<open>A concrete SCoP\<close>

text \<open>
  One statement \<open>S[i, j]\<close> with \<open>0 \<le> i, j < 4\<close> under a tower of two bands: the outer
  band \<open>L_0\<close> schedules \<open>i\<close>, the inner band \<open>L_1\<close> schedules \<open>j\<close>.  The dependence goes
  from \<open>S[0, 1]\<close> to \<open>S[1, 0]\<close>.  The cursor is on the outer band.
\<close>

definition ex_ctx :: isl_ctx where
  "ex_ctx = \<lparr>tile_scale_tile_loops = True, tile_shift_point_loops = True\<rparr>"

definition ex_in_S :: "point \<Rightarrow> bool" where
  "ex_in_S x = (length x = 2 \<and> 0 \<le> x ! 0 \<and> x ! 0 < 4 \<and> 0 \<le> x ! 1 \<and> x ! 1 < 4)"

definition ex_outer :: band where
  "ex_outer =
     \<lparr>mupa = \<lparr>tuple_id = Some ''L_0'',
              upa_list = [[((''S'', 2), \<lambda>x. if ex_in_S x then Some (x ! 0) else None)]]\<rparr>,
      permutable = True, coincident = [True], ast_loop_type = [isl_ast_loop_default]\<rparr>"

definition ex_inner :: band where
  "ex_inner =
     \<lparr>mupa = \<lparr>tuple_id = Some ''L_1'',
              upa_list = [[((''S'', 2), \<lambda>x. if ex_in_S x then Some (x ! 1) else None)]]\<rparr>,
      permutable = True, coincident = [False], ast_loop_type = [isl_ast_loop_default]\<rparr>"

definition ex_tree :: tree where
  "ex_tree = Domain {x. fst x = ''S'' \<and> ex_in_S (snd x)} (Band ex_outer (Band ex_inner Leaf))"

definition ex_node :: isl_schedule_node where
  "ex_node = \<lparr>node_ctx = ex_ctx, node_root = ex_tree, node_path = [0]\<rparr>"

definition ex_scop :: "unit scop_t" where
  "ex_scop =
     \<lparr>scop = (), dependency = {((''S'', [0, 1]), (''S'', [1, 0]))},
      current_node = Some ex_node, tmp_node = None, modified = False, strings = []\<rparr>"

text \<open>An oracle that rejects every candidate.\<close>

definition reject :: legality_oracle where
  "reject ctx sched dep = isl_bool_false"

text \<open>
  A band with two members over the same statement, for operations that want exactly one
  member.
\<close>

definition ex_band_2d :: band where
  "ex_band_2d =
     \<lparr>mupa = \<lparr>tuple_id = Some ''L_0'',
              upa_list = [[((''S'', 2), \<lambda>x. if ex_in_S x then Some (x ! 0) else None)],
                          [((''S'', 2), \<lambda>x. if ex_in_S x then Some (x ! 1) else None)]]\<rparr>,
      permutable = True, coincident = [True, False],
      ast_loop_type = [isl_ast_loop_default, isl_ast_loop_default]\<rparr>"

definition ex_node_2d :: isl_schedule_node where
  "ex_node_2d =
     \<lparr>node_ctx = ex_ctx,
      node_root = Domain {x. fst x = ''S'' \<and> ex_in_S (snd x)} (Band ex_band_2d Leaf),
      node_path = [0]\<rparr>"

text \<open>
  Two statements \<open>S[i]\<close> and \<open>T[i]\<close> with \<open>0 \<le> i < 4\<close> under one band \<open>L_0\<close> that
  schedules \<open>i\<close> for both: a partial schedule with two pieces.
\<close>

definition ex_in_1d :: "point \<Rightarrow> bool" where
  "ex_in_1d x = (length x = 1 \<and> 0 \<le> x ! 0 \<and> x ! 0 < 4)"

definition ex_two :: band where
  "ex_two =
     \<lparr>mupa = \<lparr>tuple_id = Some ''L_0'',
              upa_list = [[((''S'', 1), \<lambda>x. if ex_in_1d x then Some (x ! 0) else None),
                           ((''T'', 1), \<lambda>x. if ex_in_1d x then Some (x ! 0) else None)]]\<rparr>,
      permutable = True, coincident = [False], ast_loop_type = [isl_ast_loop_default]\<rparr>"

definition ex_two_node :: isl_schedule_node where
  "ex_two_node =
     \<lparr>node_ctx = ex_ctx,
      node_root = Domain {x. (fst x = ''S'' \<or> fst x = ''T'') \<and> ex_in_1d (snd x)}
        (Band ex_two
          (Sequence [Filter {x. fst x = ''S'' \<and> ex_in_1d (snd x)} Leaf,
                     Filter {x. fst x = ''T'' \<and> ex_in_1d (snd x)} Leaf])),
      node_path = [0]\<rparr>"

text \<open>
  Reading a result: the value of a partial schedule at an instance, member by member, and
  the partial schedule of the band that a shift returns (none after an abort, after a null
  result, or when the node in focus is not a band).
\<close>

definition union_pw_aff_eval :: "union_pw_aff \<Rightarrow> inst \<Rightarrow> int option" where
  "union_pw_aff_eval u x =
     (case map_of u (space_of x) of None \<Rightarrow> None | Some f \<Rightarrow> f (snd x))"

definition multi_union_pw_aff_eval :: "multi_union_pw_aff \<Rightarrow> inst \<Rightarrow> int option list" where
  "multi_union_pw_aff_eval m x = map (\<lambda>u. union_pw_aff_eval u x) (upa_list m)"

definition shifted_schedule :: "isl_schedule_node option outcome \<Rightarrow> multi_union_pw_aff option" where
  "shifted_schedule r =
     (case r of
        Aborted \<Rightarrow> None
      | Returned n \<Rightarrow> Option.bind n isl_schedule_node_band_get_partial_schedule)"

section \<open>Example relations for the oracle\<close>

text \<open>
  A schedule that puts two instances at the same schedule point, and a dependence between
  the two.
\<close>

definition ex_S :: union_map where
  "ex_S = {((''S'', [0, 0]), ('''', [0])), ((''S'', [0, 1]), ('''', [0]))}"

definition ex_D :: union_map where
  "ex_D = {((''S'', [0, 0]), (''S'', [0, 1]))}"

section \<open>Schedule trees: grafting\<close>

lemma is_leaf_iff: "is_leaf t \<longleftrightarrow> t = Leaf"
  by (cases t) auto

lemma is_leaf_set_children: "is_leaf (set_children t cs) = is_leaf t"
  by (cases t) auto

lemma child_tree_not_leaf:
  "child_tree t i = Some c \<Longrightarrow> \<not> is_leaf t"
  by (auto simp: child_tree_def split: if_splits)

lemma child_tree_stored:
  "child_tree t i = Some c \<Longrightarrow> \<not> is_leaf c \<Longrightarrow>
     0 \<le> i \<and> i < int (length (children t)) \<and> children t ! nat i = c"
  by (auto simp: child_tree_def split: if_splits)

lemma children_update:
  "\<not> is_leaf t \<Longrightarrow> \<not> is_leaf c \<Longrightarrow> k < length (children t) \<Longrightarrow>
   children (set_children t ((children t)[k := c])) = (children t)[k := c]"
  by (cases t) (auto simp: only_child_def split: if_splits)

lemma replace_child_stored:
  assumes "child_tree t i = Some c" "\<not> is_leaf c" "\<not> is_leaf c'"
  shows "\<exists>t'. replace_child t i c' = Some t' \<and> child_tree t' i = Some c' \<and> \<not> is_leaf t'"
proof -
  from child_tree_stored [OF assms(1,2)] have i: "0 \<le> i" "i < int (length (children t))"
    by auto
  then have ne: "children t \<noteq> []" by auto
  have nl: "\<not> is_leaf t" using assms(1) by (rule child_tree_not_leaf)
  let ?t' = "set_children t ((children t)[nat i := c'])"
  have r: "replace_child t i c' = Some ?t'"
    using assms(3) i ne by (simp add: replace_child_def)
  have k: "nat i < length (children t)" using i by simp
  have ch: "children ?t' = (children t)[nat i := c']"
    by (rule children_update [OF nl assms(3) k])
  have "child_tree ?t' i = Some c'"
    using i ne ch nl by (simp add: child_tree_def is_leaf_set_children)
  then show ?thesis using r nl by (simp add: is_leaf_set_children)
qed

lemma subtree_at_not_leaf:
  "subtree_at t p = Some s \<Longrightarrow> \<not> is_leaf s \<Longrightarrow> \<not> is_leaf t"
  by (cases p) (auto dest: child_tree_not_leaf split: option.splits)

lemma graft_subtree:
  "subtree_at t p = Some s \<Longrightarrow> \<not> is_leaf s \<Longrightarrow> \<not> is_leaf new \<Longrightarrow>
     \<exists>t'. graft t p new = Some t' \<and> subtree_at t' p = Some new \<and> \<not> is_leaf t'"
proof (induction p arbitrary: t)
  case Nil
  then show ?case by simp
next
  case (Cons i p)
  from Cons.prems(1) obtain c where c: "child_tree t i = Some c" and s: "subtree_at c p = Some s"
    by (auto split: option.splits)
  have cl: "\<not> is_leaf c"
    using s Cons.prems(2) by (rule subtree_at_not_leaf)
  from Cons.IH [OF s Cons.prems(2,3)] obtain c' where
    c': "graft c p new = Some c'" "subtree_at c' p = Some new" "\<not> is_leaf c'"
    by blast
  from replace_child_stored [OF c cl c'(3)] obtain t' where
    t': "replace_child t i c' = Some t'" "child_tree t' i = Some c'" "\<not> is_leaf t'"
    by blast
  have "graft t (i # p) new = Some t'"
    using c c'(1) t'(1) by simp
  moreover have "subtree_at t' (i # p) = Some new"
    using t'(2) c'(2) by simp
  ultimately show ?case using t'(3) by blast
qed

lemma graft_band:
  assumes "subtree_at t p = Some (Band b c)"
  shows "\<exists>t'. graft t p (Band b' c') = Some t' \<and> subtree_at t' p = Some (Band b' c')"
  using graft_subtree [OF assms, of "Band b' c'"] by auto

lemma subtree_at_append:
  "subtree_at t (p @ q) = Option.bind (subtree_at t p) (\<lambda>s. subtree_at s q)"
  by (induction p arbitrary: t) (auto split: option.splits)

lemma graft_append:
  "subtree_at t p = Some s \<Longrightarrow> graft s q new = Some s' \<Longrightarrow> graft t (p @ q) new = graft t p s'"
  by (induction p arbitrary: t) (auto split: option.splits)

lemma graft_below_band:
  "graft (Band b c) [0] (Band b' c') = Some (Band b (Band b' c'))"
  by (cases "is_leaf c") (auto simp: child_tree_def replace_child_def only_child_def)

lemma child_tree_band: "child_tree (Band b c) 0 = Some c"
  by (cases "is_leaf c") (auto simp: child_tree_def is_leaf_iff)

section \<open>Interchange\<close>

lemma interchange_tower:
  assumes focus: "node_tree n = Some (Band b1 (Band b2 c))"
    and nroot: "node_path n \<noteq> []"
    and par: "\<not> is_set_or_sequence (parent_tree n)"
    and anch: "\<not> anchored c"
  shows "\<exists>n'. tadashi_interchange n = Some n'
           \<and> node_path n' = node_path n @ [0]
           \<and> subtree_at (node_root n') (node_path n)
               = Some (Band b2 (Band (isl_schedule_band_from_multi_union_pw_aff (mupa b1)) c))
           \<and> node_tree n' = Some (Band (isl_schedule_band_from_multi_union_pw_aff (mupa b1)) c)"
proof -
  let ?p = "node_path n" and ?r = "node_root n"
  let ?nb = "Band (isl_schedule_band_from_multi_union_pw_aff (mupa b1)) c"
  have sub: "subtree_at ?r ?p = Some (Band b1 (Band b2 c))"
    using focus by (simp add: node_tree_def)
  have get: "isl_schedule_node_band_get_partial_schedule n = Some (mupa b1)"
    using focus by (simp add: isl_schedule_node_band_get_partial_schedule_def)
  from graft_band [OF sub, of b2 c] obtain r1 where
    r1: "graft ?r ?p (Band b2 c) = Some r1" "subtree_at r1 ?p = Some (Band b2 c)"
    by blast
  let ?n1 = "n\<lparr>node_root := r1\<rparr>"
  have del: "isl_schedule_node_delete n = Some ?n1"
    using focus nroot par anch r1
    by (simp add: isl_schedule_node_delete_def isl_schedule_node_graft_tree_def n_children_def
        child_tree_band)
  let ?n2 = "?n1\<lparr>node_path := ?p @ [0]\<rparr>"
  have fc: "isl_schedule_node_first_child ?n1 = Some ?n2"
    using r1
    by (simp add: isl_schedule_node_first_child_def isl_schedule_node_child_def node_tree_def
        child_tree_band)
  have t2: "node_tree ?n2 = Some c"
    using r1 by (simp add: node_tree_def subtree_at_append child_tree_band)
  have p2: "parent_tree ?n2 = Some (Band b2 c)"
    using r1 by (simp add: parent_tree_def)
  from graft_band [OF r1(2), of b2 ?nb] obtain r2 where
    r2: "graft r1 ?p (Band b2 ?nb) = Some r2" "subtree_at r2 ?p = Some (Band b2 ?nb)"
    by blast
  have "graft r1 (?p @ [0]) ?nb = graft r1 ?p (Band b2 ?nb)"
    by (rule graft_append [OF r1(2)]) (rule graft_below_band)
  then have g2: "graft r1 (?p @ [0]) ?nb = Some r2"
    using r2 by simp
  let ?n' = "?n2\<lparr>node_root := r2\<rparr>"
  have ins: "isl_schedule_node_insert_partial_schedule ?n2 (mupa b1) = Some ?n'"
    using t2 p2 anch g2
    by (simp add: isl_schedule_node_insert_partial_schedule_def isl_schedule_node_graft_tree_def
        is_set_or_sequence_def)
  have res: "tadashi_interchange n = Some ?n'"
    by (simp add: tadashi_interchange_def get del fc ins)
  have "node_tree ?n' = Some ?nb"
    using r2 by (simp add: node_tree_def subtree_at_append child_tree_band)
  with res r2 show ?thesis by simp
qed

lemma ex_focus: "node_tree ex_node = Some (Band ex_outer (Band ex_inner Leaf))"
  by (simp add: ex_node_def ex_tree_def node_tree_def child_tree_def)

lemma ex_well_placed:
  "node_path ex_node \<noteq> [] \<and> \<not> is_set_or_sequence (parent_tree ex_node) \<and> \<not> anchored Leaf"
  by (simp add: ex_node_def ex_tree_def parent_tree_def is_set_or_sequence_def)

lemma ex_interchange:
  "tadashi_interchange ex_node =
     Some \<lparr>node_ctx = ex_ctx,
           node_root = Domain {x. fst x = ''S'' \<and> ex_in_S (snd x)}
             (Band ex_inner (Band (isl_schedule_band_from_multi_union_pw_aff (mupa ex_outer)) Leaf)),
           node_path = [0, 0]\<rparr>"
  by (simp add: tadashi_interchange_def ex_node_def ex_tree_def
      isl_schedule_node_band_get_partial_schedule_def node_tree_def isl_schedule_node_delete_def
      parent_tree_def is_set_or_sequence_def isl_schedule_node_graft_tree_def
      isl_schedule_node_first_child_def isl_schedule_node_child_def
      isl_schedule_node_insert_partial_schedule_def child_tree_def replace_child_def
      n_children_def only_child_def)

text \<open>
  C4, as the code has it.  For a cursor on a band whose only child is a band, where the
  kernel allows the steps (the band is not the root and not a child of a set or sequence
  node, the subtree below the tower is not anchored): \<open>tadashi_interchange\<close> swaps the
  partial schedules of the two bands, and the cursor it returns is one level below the
  position it started from, on the new lower band, which carries the partial schedule of
  the originally outer band.  The originally inner band is above it, at the old position.
\<close>

theorem interchange_swaps_and_focuses_lower_band:
  assumes "node_tree n = Some (Band b1 (Band b2 c))"
    and "node_path n \<noteq> []"
    and "\<not> is_set_or_sequence (parent_tree n)"
    and "\<not> anchored c"
  shows "\<exists>n'. tadashi_interchange n = Some n'
           \<and> node_path n' = node_path n @ [0]
           \<and> subtree_at (node_root n') (node_path n)
               = Some (Band b2 (Band (isl_schedule_band_from_multi_union_pw_aff (mupa b1)) c))
           \<and> isl_schedule_node_band_get_partial_schedule (n'\<lparr>node_path := node_path n\<rparr>)
               = Some (mupa b2)
           \<and> isl_schedule_node_band_get_partial_schedule n' = Some (mupa b1)"
proof -
  from interchange_tower [OF assms] obtain n' where
    n': "tadashi_interchange n = Some n'" "node_path n' = node_path n @ [0]"
      "subtree_at (node_root n') (node_path n)
        = Some (Band b2 (Band (isl_schedule_band_from_multi_union_pw_aff (mupa b1)) c))"
      "node_tree n' = Some (Band (isl_schedule_band_from_multi_union_pw_aff (mupa b1)) c)"
    by blast
  have "isl_schedule_node_band_get_partial_schedule (n'\<lparr>node_path := node_path n\<rparr>)
          = Some (mupa b2)"
    using n'(3) by (simp add: isl_schedule_node_band_get_partial_schedule_def node_tree_def)
  moreover have "isl_schedule_node_band_get_partial_schedule n' = Some (mupa b1)"
    using n'(4)
    by (simp add: isl_schedule_node_band_get_partial_schedule_def
        isl_schedule_band_from_multi_union_pw_aff_def)
  ultimately show ?thesis using n' by blast
qed

theorem interchange_swaps_and_focuses_lower_band_witness:
  "node_tree ex_node = Some (Band ex_outer (Band ex_inner Leaf)) \<and> node_path ex_node \<noteq> [] \<and>
   \<not> is_set_or_sequence (parent_tree ex_node) \<and> \<not> anchored Leaf \<and>
   (\<exists>n'. tadashi_interchange ex_node = Some n' \<and> node_path n' = [0, 0]
      \<and> isl_schedule_node_band_get_partial_schedule n' = Some (mupa ex_outer))"
  using interchange_swaps_and_focuses_lower_band [of ex_node ex_outer ex_inner Leaf]
    ex_focus ex_well_placed
  by (auto simp: ex_node_def)

text \<open>
  C4 as stated fails on the example tower: the returned cursor is not at the position of
  the tower's outer band but one level below, and the band in focus carries the schedule
  \<open>L_0\<close> of the originally outer band, not the schedule \<open>L_1\<close> of the originally inner one.
\<close>

theorem interchange_focus_counterexample:
  "map_option node_path (tadashi_interchange ex_node) = Some [0, 0] \<and>
   node_path ex_node = [0] \<and>
   Option.bind (tadashi_interchange ex_node) isl_schedule_node_band_get_partial_schedule
     = Some (mupa ex_outer) \<and>
   mupa ex_outer \<noteq> mupa ex_inner"
proof -
  have "tuple_id (mupa ex_outer) \<noteq> tuple_id (mupa ex_inner)"
    by (simp add: ex_outer_def ex_inner_def)
  then have "mupa ex_outer \<noteq> mupa ex_inner" by auto
  then show ?thesis
    by (simp add: ex_interchange isl_schedule_node_band_get_partial_schedule_def node_tree_def
        isl_schedule_band_from_multi_union_pw_aff_def child_tree_def) (simp add: ex_node_def)
qed

section \<open>Session manager: properties\<close>

text \<open>
  C7.  For every SCoP record, every primitive and every oracle: the sequence
  \<open>pre_transform\<close>, primitive on the scratch node, \<open>post_transform\<close>, followed by
  \<open>rollback\<close>, leaves the current node equal to the current node before \<open>pre_transform\<close>,
  whatever the oracle answered.
\<close>

theorem rollback_restores_current:
  "current_node (rollback (fst (transform tadashi_check_legality P si))) = current_node si"
  by (simp add: transform_def post_transform_def pre_transform_def rollback_def Let_def)

text \<open>
  C1, as the code has it.  For every SCoP record and every primitive, when the oracle
  answers \<open>isl_bool_false\<close> on the candidate: the operation returns 0, the current node is
  the rejected candidate, and the scratch slot holds the node that was current before the
  operation.  The same holds for \<open>set_parallel\<close> with its own oracle.
\<close>

theorem rejected_candidate_becomes_current:
  "(tadashi_check_legality
      (isl_schedule_get_ctx (isl_schedule_node_get_schedule (Option.bind (current_node si) P)))
      (isl_schedule_node_get_schedule (Option.bind (current_node si) P)) (dependency si)
      = isl_bool_false
    \<longrightarrow> snd (transform tadashi_check_legality P si) = 0
      \<and> current_node (fst (transform tadashi_check_legality P si)) = Option.bind (current_node si) P
      \<and> tmp_node (fst (transform tadashi_check_legality P si)) = current_node si) \<and>
   (tadashi_check_legality_parallel
      (map_option node_ctx (Option.bind (current_node si) tadashi_set_parallel))
      (Option.bind (Option.bind (current_node si) tadashi_set_parallel) isl_schedule_node_first_child)
      (dependency si) = isl_bool_false
    \<longrightarrow> snd (set_parallel tadashi_check_legality_parallel tadashi_set_parallel si) = 0
      \<and> current_node (fst (set_parallel tadashi_check_legality_parallel tadashi_set_parallel si))
          = Option.bind (current_node si) tadashi_set_parallel
      \<and> tmp_node (fst (set_parallel tadashi_check_legality_parallel tadashi_set_parallel si))
          = current_node si)"
  by (simp add: transform_def set_parallel_def pre_transform_def post_transform_def Let_def)

theorem rejected_candidate_becomes_current_witness:
  "reject (isl_schedule_get_ctx (isl_schedule_node_get_schedule
       (Option.bind (current_node ex_scop) tadashi_interchange)))
     (isl_schedule_node_get_schedule (Option.bind (current_node ex_scop) tadashi_interchange))
     (dependency ex_scop) = isl_bool_false \<and>
   (\<lambda>ctx node dep. isl_bool_false)
     (map_option node_ctx (Option.bind (current_node ex_scop) Some))
     (Option.bind (Option.bind (current_node ex_scop) Some) isl_schedule_node_first_child)
     (dependency ex_scop) = isl_bool_false \<and>
   snd (transform reject tadashi_interchange ex_scop) = 0 \<and>
   tmp_node (fst (transform reject tadashi_interchange ex_scop)) = Some ex_node \<and>
   snd (set_parallel (\<lambda>ctx node dep. isl_bool_false) Some ex_scop) = 0 \<and>
   tmp_node (fst (set_parallel (\<lambda>ctx node dep. isl_bool_false) Some ex_scop)) = Some ex_node"
  using rejected_candidate_becomes_current
    [of reject ex_scop tadashi_interchange "\<lambda>ctx node dep. isl_bool_false" Some]
  by (simp add: reject_def) (simp add: ex_scop_def)

text \<open>
  C1 as stated fails: with an oracle that rejects, \<open>interchange\<close> on the example returns 0
  and yet the current node afterwards is not the current node before the operation.
\<close>

theorem rejected_interchange_counterexample:
  "snd (interchange reject ex_scop) = 0 \<and>
   current_node (fst (interchange reject ex_scop)) \<noteq> current_node ex_scop"
  by (simp add: interchange_def transform_def pre_transform_def post_transform_def Let_def
      reject_def ex_scop_def ex_interchange) (simp add: ex_node_def)

text \<open>
  C3, as the code has it.  The modified flag is true after every run of \<open>post_transform\<close>
  and of \<open>set_parallel\<close>, whatever the oracle answered; \<open>pre_transform\<close>, \<open>rollback\<close> and
  the navigation leave it as it is.  At emission, given a printer and a SCoP, a record
  whose flag is false is printed by \<open>pet_scop_print_original\<close>, a record whose flag is true
  by the code generator from the schedule of its current node; the index advances by one.
\<close>

theorem modified_after_every_transform_and_emission:
  "modified (fst (transform tadashi_check_legality P si)) \<and>
   modified (fst (set_parallel tadashi_check_legality_parallel tadashi_set_parallel si)) \<and>
   modified (pre_transform si) = modified si \<and>
   modified (rollback si) = modified si \<and>
   modified (goto_root si) = modified si \<and>
   modified (goto_parent si) = modified si \<and>
   modified (goto_child si i) = modified si \<and>
   generate_code_callback pet_scop_print_original codegen (Some p) (Some sc) scop_info scop_idx =
     (if modified scop_info
      then codegen p (scop scop_info) (isl_schedule_node_get_schedule (current_node scop_info))
      else pet_scop_print_original sc p, scop_idx + 1)"
  by (simp add: transform_def set_parallel_def pre_transform_def post_transform_def rollback_def
      goto_root_def goto_parent_def goto_child_def generate_code_callback_def Let_def)

text \<open>
  C3 as stated fails: the example record is not modified, the oracle rejects the
  interchange (the operation returns 0), and the flag is true afterwards.
\<close>

theorem modified_after_rejection_counterexample:
  "\<not> modified ex_scop \<and> snd (interchange reject ex_scop) = 0 \<and>
   modified (fst (interchange reject ex_scop))"
  by (simp add: interchange_def transform_def pre_transform_def post_transform_def Let_def
      reject_def ex_scop_def)

subsection \<open>Navigation\<close>











section \<open>The legality oracle: properties\<close>

lemma delta_char:
  fixes S D :: union_map
  assumes wf: "\<forall>(x, q) \<in> S. space_of q = ('''', n)"
  shows "isl_union_map_deltas (isl_union_map_apply_range (isl_union_map_apply_domain D S) S)
         = (\<lambda>d. ('''', d)) ` Delta S D"
proof -
  have sp: "\<And>x q. (x, q) \<in> S \<Longrightarrow> fst q = '''' \<and> length (snd q) = n"
    using wf by (auto simp: space_of_def)
  show ?thesis
  proof (rule set_eqI, rule iffI)
    fix e :: inst
    assume "e \<in> isl_union_map_deltas
                  (isl_union_map_apply_range (isl_union_map_apply_domain D S) S)"
    then obtain p q src snk where e: "e = tuple_diff q p"
      and m: "(src, p) \<in> S" "(src, snk) \<in> D" "(snk, q) \<in> S"
      by (auto simp: isl_union_map_deltas_def isl_union_map_apply_range_def
          isl_union_map_apply_domain_def)
    have "e = ('''', map2 (-) (snd q) (snd p))"
      using e sp [OF m(1)] by (simp add: tuple_diff_def)
    moreover have "map2 (-) (snd q) (snd p) \<in> Delta S D"
      using m unfolding Delta_def by blast
    ultimately show "e \<in> (\<lambda>d. ('''', d)) ` Delta S D" by blast
  next
    fix e :: inst
    assume "e \<in> (\<lambda>d. ('''', d)) ` Delta S D"
    then obtain p q src snk where e: "e = ('''', map2 (-) (snd q) (snd p))"
      and m: "(src, snk) \<in> D" "(src, p) \<in> S" "(snk, q) \<in> S"
      unfolding Delta_def by blast
    have "space_of p = space_of q"
      using sp [OF m(2)] sp [OF m(3)] by (simp add: space_of_def)
    moreover have "(p, q) \<in> isl_union_map_apply_range (isl_union_map_apply_domain D S) S"
      using m by (auto simp: isl_union_map_apply_range_def isl_union_map_apply_domain_def)
    moreover have "e = tuple_diff q p"
      using e sp [OF m(2)] by (simp add: tuple_diff_def)
    ultimately show "e \<in> isl_union_map_deltas
                          (isl_union_map_apply_range (isl_union_map_apply_domain D S) S)"
      unfolding isl_union_map_deltas_def by (intro image_eqI [where x = "(p, q)"]) auto
  qed
qed

lemma Delta_I:
  "(source, sink) \<in> D \<Longrightarrow> (source, p) \<in> S \<Longrightarrow> (sink, q) \<in> S
     \<Longrightarrow> map2 (-) (snd q) (snd p) \<in> Delta S D"
  unfolding Delta_def by blast

lemma Delta_length:
  fixes S D :: union_map
  assumes wf: "\<forall>(x, q) \<in> S. space_of q = ('''', n)" and d: "d \<in> Delta S D"
  shows "length d = n"
proof -
  from d obtain source sink p q where m: "(source, p) \<in> S" "(sink, q) \<in> S"
    and e: "d = map2 (-) (snd q) (snd p)"
    unfolding Delta_def by blast
  from wf m have "length (snd p) = n" "length (snd q) = n"
    by (auto simp: space_of_def)
  with e show ?thesis by simp
qed

lemma Delta_nonempty:
  assumes "\<exists>(source, sink) \<in> D. source \<in> fst ` S \<and> sink \<in> fst ` S"
  shows "Delta S D \<noteq> {}"
proof -
  from assms obtain source sink p q where
    "(source, sink) \<in> D" "(source, p) \<in> S" "(sink, q) \<in> S"
    by auto
  then have "map2 (-) (snd q) (snd p) \<in> Delta S D" by (rule Delta_I)
  then show ?thesis by blast
qed

lemma zeros_char:
  fixes A :: "point set"
  assumes len: "\<forall>d \<in> A. length d = n" and ne: "A \<noteq> {}"
  shows "get_zeros_on_union_set ((\<lambda>d. ('''', d)) ` A) = Some {('''', replicate n 0)}"
proof -
  have "space_of ` ((\<lambda>d. ('''', d)) ` A) = {('''', n)}"
    using len ne by (auto simp: space_of_def image_iff)
  then show ?thesis
    by (simp add: get_zeros_on_union_set_def isl_set_from_union_set_def isl_set_get_space_def
        isl_multi_aff_zero_def is_singleton_def)
qed

lemma ex_Delta: "Delta ex_S ex_D = {[0]}"
proof (rule set_eqI, rule iffI)
  fix d
  assume "d \<in> Delta ex_S ex_D"
  then obtain source sink p q where m: "(source, p) \<in> ex_S" "(sink, q) \<in> ex_S"
    and d: "d = map2 (-) (snd q) (snd p)"
    unfolding Delta_def by blast
  from m have "snd p = [0]" "snd q = [0]"
    unfolding ex_S_def by auto
  with d show "d \<in> {[0]}" by simp
next
  fix d :: point
  assume d: "d \<in> {[0]}"
  have a: "((''S'', [0, 0]), (''S'', [0, 1])) \<in> ex_D" by (simp add: ex_D_def)
  have b: "((''S'', [0, 0]), ('''', [0])) \<in> ex_S" by (simp add: ex_S_def)
  have c: "((''S'', [0, 1]), ('''', [0])) \<in> ex_S" by (simp add: ex_S_def)
  show "d \<in> Delta ex_S ex_D"
    using Delta_I [OF a b c] d by simp
qed

lemma ex_S_well_formed: "\<forall>(x, q) \<in> ex_S. space_of q = ('''', 1)"
  by (simp add: ex_S_def space_of_def)

lemma ex_D_scheduled: "\<exists>(source, sink) \<in> ex_D. source \<in> fst ` ex_S \<and> sink \<in> fst ` ex_S"
  by (simp add: ex_S_def ex_D_def)

text \<open>
  C2, as the code has it.  \<open>check_legality\<close> returns true when the dependence relation is
  empty.  Otherwise, for a schedule map whose schedule points are all anonymous tuples of
  one dimension \<open>n\<close> and that schedules both ends of at least one dependence, it returns
  true if and only if no element of the delta set is lexicographically less than or equal
  to the zero tuple: a dependence whose two ends get the same schedule point makes the
  schedule illegal.
\<close>

theorem check_legality_iff_no_delta_lex_le_zero:
  fixes S D :: union_map
  shows
  "(D = {} \<longrightarrow> check_legality S D = isl_bool_true) \<and>
   (D \<noteq> {} \<and> (\<forall>(x, q) \<in> S. space_of q = ('''', n))
      \<and> (\<exists>(source, sink) \<in> D. source \<in> fst ` S \<and> sink \<in> fst ` S)
    \<longrightarrow> (check_legality S D = isl_bool_true
          \<longleftrightarrow> \<not> (\<exists>d \<in> Delta S D. lex_le d (replicate n 0))))"
proof (intro conjI impI)
  assume "D = {}"
  then show "check_legality S D = isl_bool_true"
    by (simp add: check_legality_def)
next
  assume a: "D \<noteq> {} \<and> (\<forall>(x, q) \<in> S. space_of q = ('''', n))
      \<and> (\<exists>(source, sink) \<in> D. source \<in> fst ` S \<and> sink \<in> fst ` S)"
  then have wf: "\<forall>(x, q) \<in> S. space_of q = ('''', n)" and ne: "D \<noteq> {}"
    and cov: "\<exists>(source, sink) \<in> D. source \<in> fst ` S \<and> sink \<in> fst ` S"
    by blast+
  have len: "\<forall>d \<in> Delta S D. length d = n"
    using Delta_length [OF wf] by blast
  have z: "get_zeros_on_union_set ((\<lambda>d. ('''', d)) ` Delta S D) = Some {('''', replicate n 0)}"
    by (rule zeros_char [OF len Delta_nonempty [OF cov]])
  have le: "isl_union_set_lex_le_union_set ((\<lambda>d. ('''', d)) ` Delta S D) {('''', replicate n 0)} = {}
        \<longleftrightarrow> \<not> (\<exists>d \<in> Delta S D. lex_le d (replicate n 0))"
    using len by (auto simp: isl_union_set_lex_le_union_set_def space_of_def)
  show "check_legality S D = isl_bool_true \<longleftrightarrow> \<not> (\<exists>d \<in> Delta S D. lex_le d (replicate n 0))"
    using ne le by (simp add: check_legality_def delta_char [OF wf] z Let_def)
qed

theorem check_legality_iff_no_delta_lex_le_zero_witness:
  "check_legality ex_S {} = isl_bool_true \<and>
   ex_D \<noteq> {} \<and> space_of ` snd ` ex_S = {('''', 1)} \<and>
   (\<exists>(source, sink) \<in> ex_D. source \<in> fst ` ex_S \<and> sink \<in> fst ` ex_S) \<and>
   check_legality ex_S ex_D \<noteq> isl_bool_true"
proof -
  have ne: "ex_D \<noteq> {}" by (simp add: ex_D_def)
  have "lex_le [0] (replicate 1 0)" by simp
  then have "\<exists>d \<in> Delta ex_S ex_D. lex_le d (replicate 1 0)"
    by (simp add: ex_Delta)
  moreover have "space_of ` snd ` ex_S = {('''', 1)}"
    by (simp add: ex_S_def space_of_def)
  ultimately show ?thesis
    using check_legality_iff_no_delta_lex_le_zero [of "{}" ex_S 1]
      check_legality_iff_no_delta_lex_le_zero [of ex_D ex_S 1]
      ne ex_S_well_formed ex_D_scheduled
    by blast
qed

text \<open>
  C2 as stated fails: the two ends of the dependence get the same schedule point, so the
  delta set is \<open>{[0]}\<close> and holds no tuple that is lexicographically less than zero, yet
  \<open>check_legality\<close> returns false.
\<close>

theorem equal_schedule_points_counterexample:
  "ex_D \<noteq> {} \<and> Delta ex_S ex_D = {[0]} \<and> \<not> lex_lt [0] (replicate 1 0) \<and>
   check_legality ex_S ex_D = isl_bool_false"
proof -
  have ne: "ex_D \<noteq> {}" by (simp add: ex_D_def)
  have d: "isl_union_map_deltas
             (isl_union_map_apply_range (isl_union_map_apply_domain ex_D ex_S) ex_S)
           = {('''', [0])}"
    by (simp add: delta_char [OF ex_S_well_formed] ex_Delta)
  have z: "get_zeros_on_union_set {('''', [0])} = Some {('''', [0])}"
    using zeros_char [of "{[0]}" 1] by simp
  have "(('''', [0]), ('''', [0])) \<in> isl_union_set_lex_le_union_set {('''', [0])} {('''', [0])}"
    by (simp add: isl_union_set_lex_le_union_set_def)
  then have "isl_union_set_lex_le_union_set {('''', [0])} {('''', [0])} \<noteq> {}"
    by blast
  then have "check_legality ex_S ex_D = isl_bool_false"
    using ne by (simp add: check_legality_def d z)
  then show ?thesis using ne by (simp add: ex_Delta)
qed

section \<open>Tiling: properties\<close>

lemma map_filter_all_Some:
  "(\<And>x. x \<in> set xs \<Longrightarrow> f x = Some (g x)) \<Longrightarrow> List.map_filter f xs = map g xs"
  by (induction xs) auto

lemma pw_aff_bin_map:
  "pw_aff_bin h pa (snd (pw_aff_map g pa)) = pw_aff_map (\<lambda>d. h d (g d)) pa"
  by (auto simp: pw_aff_bin_def pw_aff_map_def fun_eq_iff split: option.splits)

lemma map_of_union_pw_aff_map:
  assumes "distinct (map fst u)" "pa \<in> set u"
  shows "map_of (union_pw_aff_map g u) (fst pa) = Some (snd (pw_aff_map g pa))"
proof -
  have "distinct (map fst (union_pw_aff_map g u))"
    using assms(1) by (simp add: union_pw_aff_map_def pw_aff_map_def comp_def)
  moreover have "(fst pa, snd (pw_aff_map g pa)) \<in> set (union_pw_aff_map g u)"
    using assms(2) by (force simp: union_pw_aff_map_def pw_aff_map_def)
  ultimately show ?thesis by simp
qed

lemma union_pw_aff_bin_map:
  assumes "distinct (map fst u)"
  shows "union_pw_aff_bin h u (union_pw_aff_map g u) = union_pw_aff_map (\<lambda>d. h d (g d)) u"
proof -
  have "\<And>pa. pa \<in> set u \<Longrightarrow>
          map_option (pw_aff_bin h pa) (map_of (union_pw_aff_map g u) (fst pa))
            = Some (pw_aff_map (\<lambda>d. h d (g d)) pa)"
    by (simp add: map_of_union_pw_aff_map [OF assms] pw_aff_bin_map)
  then have "List.map_filter
               (\<lambda>pa. map_option (pw_aff_bin h pa) (map_of (union_pw_aff_map g u) (fst pa))) u
             = map (pw_aff_map (\<lambda>d. h d (g d))) u"
    by (rule map_filter_all_Some)
  then show ?thesis
    by (simp add: union_pw_aff_bin_def union_pw_aff_map_def)
qed

lemma union_pw_aff_map_map:
  "union_pw_aff_map f (union_pw_aff_map g u) = union_pw_aff_map (\<lambda>d. f (g d)) u"
  by (simp add: union_pw_aff_map_def pw_aff_map_def comp_def option.map_comp)

lemma union_pw_aff_map_id: "union_pw_aff_map (\<lambda>d. d) u = u"
  by (induction u) (auto simp: union_pw_aff_map_def pw_aff_map_def option.map_ident)

lemma tile_one_member:
  assumes focus: "node_tree n = Some (Band b c)"
    and one: "upa_list (mupa b) = [u]"
    and dist: "distinct (map fst u)"
    and anch: "\<not> anchored c"
    and pos: "0 < tile_size"
  shows "\<exists>n'. tadashi_tile n tile_size = Some n'
           \<and> node_path n' = node_path n
           \<and> node_tree n' =
               Some (Band (b\<lparr>mupa := (mupa b)\<lparr>upa_list :=
                        [union_pw_aff_map (\<lambda>d. if tile_scale_tile_loops (node_ctx n)
                                                then tile_size * (d div tile_size)
                                                else d div tile_size) u]\<rparr>\<rparr>)
                     (Band (b\<lparr>mupa := (mupa b)\<lparr>upa_list :=
                        [union_pw_aff_map (\<lambda>d. if tile_shift_point_loops (node_ctx n)
                                                then d mod tile_size else d) u]\<rparr>\<rparr>)
                       c))"
proof -
  let ?t = tile_size
  let ?sizes = "(band_space_of (mupa b), [?t])"
  let ?outer = "union_pw_aff_map (\<lambda>d. if tile_scale_tile_loops (node_ctx n)
                                        then ?t * (d div ?t) else d div ?t) u"
  let ?inner = "union_pw_aff_map (\<lambda>d. if tile_shift_point_loops (node_ctx n)
                                        then d mod ?t else d) u"
  have sp: "isl_schedule_node_band_get_space n = Some (band_space_of (mupa b))"
    using focus by (simp add: isl_schedule_node_band_get_space_def)
  have mv: "isl_multi_val_from_val_list (band_space_of (mupa b)) [?t] = Some ?sizes"
    using one by (simp add: isl_multi_val_from_val_list_def band_space_of_def)
  have tile: "isl_schedule_band_tile (node_ctx n) b ?sizes
                = b\<lparr>mupa := (mupa b)\<lparr>upa_list := [?outer]\<rparr>\<rparr>"
    using one
    by (cases "tile_scale_tile_loops (node_ctx n)")
       (simp_all add: isl_schedule_band_tile_def isl_multi_union_pw_aff_tile_def Let_def
        union_pw_aff_scale_down_floor_def isl_union_pw_aff_scale_val_def union_pw_aff_map_map)
  have mod_eq: "\<And>d::int. d - ?t * (d div ?t) = d mod ?t"
    by (simp add: minus_mult_div_eq_mod)
  have point: "isl_schedule_band_point (node_ctx n) b
                 (b\<lparr>mupa := (mupa b)\<lparr>upa_list := [?outer]\<rparr>\<rparr>) ?sizes
               = b\<lparr>mupa := (mupa b)\<lparr>upa_list := [?inner]\<rparr>\<rparr>"
    using one dist
    by (cases "tile_scale_tile_loops (node_ctx n)")
       (auto simp: isl_schedule_band_point_def isl_multi_union_pw_aff_sub_def
          isl_union_pw_aff_sub_def isl_union_pw_aff_scale_val_def union_pw_aff_map_map
          union_pw_aff_bin_map mod_eq Let_def union_pw_aff_map_id
          intro!: arg_cong [where f = "\<lambda>f. union_pw_aff_map f u"])
  let ?new = "Band (b\<lparr>mupa := (mupa b)\<lparr>upa_list := [?outer]\<rparr>\<rparr>)
                (Band (b\<lparr>mupa := (mupa b)\<lparr>upa_list := [?inner]\<rparr>\<rparr>) c)"
  from focus have sub: "subtree_at (node_root n) (node_path n) = Some (Band b c)"
    by (simp add: node_tree_def)
  from graft_subtree [OF sub, of ?new] obtain r where
    r: "graft (node_root n) (node_path n) ?new = Some r" "subtree_at r (node_path n) = Some ?new"
    by auto
  have "isl_schedule_node_band_tile n ?sizes = Some (n\<lparr>node_root := r\<rparr>)"
    using focus anch pos r(1)
    by (simp add: isl_schedule_node_band_tile_def tile point isl_schedule_node_graft_tree_def
        Let_def)
  then have "tadashi_tile n tile_size = Some (n\<lparr>node_root := r\<rparr>)"
    by (simp add: tadashi_tile_def sp mv)
  moreover have "node_tree (n\<lparr>node_root := r\<rparr>) = Some ?new"
    using r(2) by (simp add: node_tree_def)
  ultimately show ?thesis by simp
qed

lemma ex_tile_2d: "tadashi_tile ex_node_2d 2 = None"
  by (simp add: tadashi_tile_def isl_schedule_node_band_get_space_def node_tree_def child_tree_def
      ex_node_2d_def ex_band_2d_def band_space_of_def isl_multi_val_from_val_list_def)

lemma ex_tile_outer:
  "map_option (\<lambda>m. multi_union_pw_aff_eval m (''S'', [3, 0]))
     (Option.bind (tadashi_tile ex_node 2) isl_schedule_node_band_get_partial_schedule)
   = Some [Some 2]"
  by (simp add: tadashi_tile_def isl_schedule_node_band_get_space_def node_tree_def
      ex_node_def ex_tree_def ex_outer_def ex_ctx_def band_space_of_def
      isl_multi_val_from_val_list_def isl_schedule_node_band_tile_def isl_schedule_band_tile_def
      isl_multi_union_pw_aff_tile_def isl_schedule_band_point_def
      union_pw_aff_scale_down_floor_def isl_union_pw_aff_scale_val_def union_pw_aff_map_def
      pw_aff_map_def isl_schedule_node_graft_tree_def
      isl_schedule_node_band_get_partial_schedule_def multi_union_pw_aff_eval_def
      union_pw_aff_eval_def space_of_def ex_in_S_def Let_def child_tree_def replace_child_def
      only_child_def)

text \<open>
  C5, as the code has it.  For a cursor on a band with exactly one member \<open>d\<close> (one
  function per space), whose subtree is not anchored, and a positive tile size:
  \<open>tadashi_tile\<close> returns a cursor at the same position.  The band there is the outer band
  of a two-level tower; its member is \<open>tile_size * floor (d / tile_size)\<close> when the
  kernel's option \<open>tile_scale_tile_loops\<close> is set and \<open>floor (d / tile_size)\<close> when it is
  not.  Its only child is the inner band, whose member is \<open>d mod tile_size\<close> when the option
  \<open>tile_shift_point_loops\<close> is set and \<open>d\<close> when it is not, above the original child.
  Both bands keep the other properties of the original band.
\<close>

theorem tile_one_member_band_tower:
  assumes "node_tree n = Some (Band b c)"
    and "upa_list (mupa b) = [u]"
    and "distinct (map fst u)"
    and "\<not> anchored c"
    and "0 < tile_size"
  shows "\<exists>n'. tadashi_tile n tile_size = Some n'
           \<and> node_path n' = node_path n
           \<and> node_tree n' =
               Some (Band (b\<lparr>mupa := (mupa b)\<lparr>upa_list :=
                        [union_pw_aff_map (\<lambda>d. if tile_scale_tile_loops (node_ctx n)
                                                then tile_size * (d div tile_size)
                                                else d div tile_size) u]\<rparr>\<rparr>)
                     (Band (b\<lparr>mupa := (mupa b)\<lparr>upa_list :=
                        [union_pw_aff_map (\<lambda>d. if tile_shift_point_loops (node_ctx n)
                                                then d mod tile_size else d) u]\<rparr>\<rparr>)
                       c))"
  using assms by (rule tile_one_member)

theorem tile_one_member_band_tower_witness:
  "node_tree ex_node = Some (Band ex_outer (Band ex_inner Leaf)) \<and>
   upa_list (mupa ex_outer) = [[((''S'', 2), \<lambda>x. if ex_in_S x then Some (x ! 0) else None)]] \<and>
   \<not> anchored (Band ex_inner Leaf) \<and> (0::int) < 2 \<and>
   (\<exists>n'. tadashi_tile ex_node 2 = Some n' \<and> node_path n' = [0])"
proof -
  have 1: "upa_list (mupa ex_outer)
             = [[((''S'', 2), \<lambda>x. if ex_in_S x then Some (x ! 0) else None)]]"
    by (simp add: ex_outer_def)
  have 2: "distinct (map fst [((''S'', 2::nat), \<lambda>x. if ex_in_S x then Some (x ! 0) else None)])"
    by simp
  have 3: "\<not> anchored (Band ex_inner Leaf)" by simp
  have 4: "(0::int) < 2" by simp
  from tile_one_member_band_tower [OF ex_focus 1 2 3 4]
  show ?thesis using ex_focus 1 by (auto simp: ex_node_def)
qed

text \<open>
  C5 as stated fails twice.  On a band with two members \<open>tadashi_tile\<close> returns the null
  pointer, since it hands the kernel a list of one size.  On the band \<open>L_0\<close> of the
  example, with the options as the kernel sets them by default and tile size 2, the outer
  member at \<open>S[3, 0]\<close> is \<open>2 = 2 * floor (3 / 2)\<close>, not \<open>floor (3 / 2) = 1\<close>.
\<close>

theorem tile_counterexample:
  "tadashi_tile ex_node_2d 2 = None \<and>
   map_option (\<lambda>m. multi_union_pw_aff_eval m (''S'', [3, 0]))
     (Option.bind (tadashi_tile ex_node 2) isl_schedule_node_band_get_partial_schedule)
   = Some [Some 2] \<and>
   (3::int) div 2 = 1"
  using ex_tile_2d ex_tile_outer by simp

section \<open>Shifting: properties\<close>

lemma shift_loop_Some:
  assumes "distinct (map fst sets)" "fst ` set acc \<inter> fst ` set sets = {}"
    and "\<And>i. i < length sets \<Longrightarrow> idx = int (k + i) \<Longrightarrow>
            \<exists>w. fn (sets ! i) v = Some w \<and> fst w = fst (sets ! i)"
  shows "\<exists>su. shift_partial_loop fn idx v sets k (Some acc) = Some su
              \<and> map fst su = map fst acc @ map fst sets"
  using assms
proof (induction sets arbitrary: k acc)
  case Nil
  then show ?case by simp
next
  case (Cons s rest)
  let ?pa = "if idx = int k then fn s v else pa_val s 0"
  have "\<exists>w. ?pa = Some w \<and> fst w = fst s"
  proof (cases "idx = int k")
    case True
    with Cons.prems(3) [of 0] show ?thesis by simp
  next
    case False
    then show ?thesis by (simp add: pa_val_def)
  qed
  then obtain w where w: "?pa = Some w" "fst w = fst s"
    by blast
  have notin: "fst w \<notin> fst ` set acc"
    using Cons.prems(2) w(2) by auto
  have add: "isl_union_pw_aff_add_pw_aff (Some acc) ?pa = Some (acc @ [w])"
    using w notin by (simp add: isl_union_pw_aff_add_pw_aff_def)
  have d: "distinct (map fst rest)"
    using Cons.prems(1) by simp
  have disj: "fst ` set (acc @ [w]) \<inter> fst ` set rest = {}"
    using Cons.prems(1,2) w(2) by auto
  have idx': "\<And>i. i < length rest \<Longrightarrow> idx = int (Suc k + i) \<Longrightarrow>
            \<exists>w. fn (rest ! i) v = Some w \<and> fst w = fst (rest ! i)"
    using Cons.prems(3) [of "Suc _"] by auto
  from Cons.IH [OF d disj idx'] obtain su where
    "shift_partial_loop fn idx v rest (Suc k) (Some (acc @ [w])) = Some su"
    "map fst su = map fst (acc @ [w]) @ map fst rest"
    by blast
  then show ?case
    using add w(2) by (simp add: Let_def)
qed

lemma shift_partial_band:
  assumes focus: "node_tree n = Some (Band b c)" and one: "upa_list (mupa b) = [u]"
  shows "shift_partial n fn idx v =
     Returned
       (Option.bind
          (shift_partial_loop fn idx v (union_pw_aff_domain_set_list u) 0 (Some [])) (\<lambda>su.
        Option.bind (tuple_id (mupa b)) (\<lambda>i.
        isl_schedule_node_band_shift n \<lparr>tuple_id = Some i, upa_list = [su]\<rparr>)))"
  using focus one
  by (simp add: shift_partial_def isl_schedule_node_band_get_partial_schedule_def Let_def)

lemma shift_partial_aborts_iff:
  assumes focus: "node_tree n = Some (Band b c)"
  shows "shift_partial n fn idx v = Aborted \<longleftrightarrow> length (upa_list (mupa b)) \<noteq> 1"
  using focus
  by (simp add: shift_partial_def isl_schedule_node_band_get_partial_schedule_def Let_def)

lemma band_shift_result:
  assumes focus: "node_tree n = Some (Band b c)"
    and sh: "isl_schedule_node_band_shift n shift = Some n'"
  shows "node_path n' = node_path n \<and>
         node_tree n' = Some (Band (b\<lparr>mupa := isl_multi_union_pw_aff_add (mupa b) shift\<rparr>) c)"
proof -
  let ?new = "Band (b\<lparr>mupa := isl_multi_union_pw_aff_add (mupa b) shift\<rparr>) c"
  from focus have sub: "subtree_at (node_root n) (node_path n) = Some (Band b c)"
    by (simp add: node_tree_def)
  from graft_subtree [OF sub, of ?new] obtain r where
    r: "graft (node_root n) (node_path n) ?new = Some r" "subtree_at r (node_path n) = Some ?new"
    by auto
  from sh focus r(1) have "n' = n\<lparr>node_root := r\<rparr>"
    by (auto simp: isl_schedule_node_band_shift_def isl_schedule_node_graft_tree_def
        split: if_splits)
  then show ?thesis
    using r(2) by (simp add: node_tree_def)
qed

lemma band_shift_succeeds:
  assumes focus: "node_tree n = Some (Band b c)"
    and sp: "band_space_of (mupa b) = band_space_of shift"
    and anch: "\<not> anchored c"
  shows "\<exists>n'. isl_schedule_node_band_shift n shift = Some n'"
proof -
  let ?new = "Band (b\<lparr>mupa := isl_multi_union_pw_aff_add (mupa b) shift\<rparr>) c"
  from focus have sub: "subtree_at (node_root n) (node_path n) = Some (Band b c)"
    by (simp add: node_tree_def)
  from graft_subtree [OF sub, of ?new] obtain r where
    "graft (node_root n) (node_path n) ?new = Some r"
    by auto
  then show ?thesis
    using focus sp anch
    by (simp add: isl_schedule_node_band_shift_def isl_schedule_node_graft_tree_def)
qed

lemma shift_partial_keeps_id:
  assumes focus: "node_tree n = Some (Band b c)" and one: "upa_list (mupa b) = [u]"
    and res: "shift_partial n fn idx v = Returned (Some n')"
  shows "node_path n' = node_path n \<and>
         map_option tuple_id (isl_schedule_node_band_get_partial_schedule n')
           = Some (tuple_id (mupa b))"
proof -
  from res obtain su i where
    sh: "isl_schedule_node_band_shift n \<lparr>tuple_id = Some i, upa_list = [su]\<rparr> = Some n'"
    unfolding shift_partial_band [OF focus one]
    by (auto simp: bind_eq_Some_conv)
  from band_shift_result [OF focus sh] show ?thesis
    by (simp add: isl_schedule_node_band_get_partial_schedule_def isl_multi_union_pw_aff_add_def)
qed

lemma shift_partial_succeeds:
  assumes focus: "node_tree n = Some (Band b c)" and one: "upa_list (mupa b) = [u]"
    and dist: "distinct (map fst u)"
    and id: "tuple_id (mupa b) \<noteq> None"
    and anch: "\<not> anchored c"
    and fn: "\<And>k. k < length u \<Longrightarrow> idx = int k \<Longrightarrow>
               \<exists>w. fn (union_pw_aff_domain_set_list u ! k) v = Some w
                    \<and> fst w = fst (union_pw_aff_domain_set_list u ! k)"
  shows "\<exists>n'. shift_partial n fn idx v = Returned (Some n')"
proof -
  let ?sets = "union_pw_aff_domain_set_list u"
  have d: "distinct (map fst ?sets)"
    using dist by (simp add: union_pw_aff_domain_set_list_def comp_def)
  have len: "length ?sets = length u"
    by (simp add: union_pw_aff_domain_set_list_def)
  have "\<exists>su. shift_partial_loop fn idx v ?sets 0 (Some []) = Some su
              \<and> map fst su = map fst ([] :: pw_aff list) @ map fst ?sets"
    by (rule shift_loop_Some [OF d]) (use fn len in auto)
  then obtain su where su: "shift_partial_loop fn idx v ?sets 0 (Some []) = Some su"
    by blast
  from id obtain i where i: "tuple_id (mupa b) = Some i"
    by blast
  have "band_space_of (mupa b) = band_space_of \<lparr>tuple_id = Some i, upa_list = [su]\<rparr>"
    using one i by (simp add: band_space_of_def)
  from band_shift_succeeds [OF focus this anch] obtain n' where
    "isl_schedule_node_band_shift n \<lparr>tuple_id = Some i, upa_list = [su]\<rparr> = Some n'"
    by blast
  then show ?thesis
    by (simp add: shift_partial_band [OF focus one] su i)
qed

lemma pa_val_ok: "\<exists>w. pa_val s v = Some w \<and> fst w = fst s"
  by (simp add: pa_val_def)

lemma pa_id_ok:
  "0 \<le> to_int v \<Longrightarrow> to_int v < int (snd (fst s))
     \<Longrightarrow> \<exists>w. pa_id s v = Some w \<and> fst w = fst s"
  by (simp add: pa_id_def Let_def)

lemma ex_two_focus:
  "node_tree ex_two_node =
     Some (Band ex_two
       (Sequence [Filter {x. fst x = ''S'' \<and> ex_in_1d (snd x)} Leaf,
                  Filter {x. fst x = ''T'' \<and> ex_in_1d (snd x)} Leaf]))"
  by (simp add: ex_two_node_def node_tree_def child_tree_def)

lemma ex_2d_focus: "node_tree ex_node_2d = Some (Band ex_band_2d Leaf)"
  by (simp add: ex_node_2d_def node_tree_def child_tree_def)

lemma ex_two_pieces:
  "upa_list (mupa ex_two) =
     [[((''S'', 1), \<lambda>x. if ex_in_1d x then Some (x ! 0) else None),
       ((''T'', 1), \<lambda>x. if ex_in_1d x then Some (x ! 0) else None)]]"
  by (simp add: ex_two_def)

text \<open>
  C6 at a band with two pieces.  Before the shift both \<open>S[3]\<close> and \<open>T[3]\<close> are scheduled
  at 3.  \<open>tadashi_full_shift_val\<close> with piece index 0 and constant 5 moves \<open>S[3]\<close> to 8
  and leaves \<open>T[3]\<close> at 3; with piece index 1 it moves \<open>T[3]\<close> and leaves \<open>S[3]\<close>.  For no
  piece index is the constant added on every piece.
\<close>

theorem full_shift_val_shifts_one_piece:
  "map_option (\<lambda>m. (multi_union_pw_aff_eval m (''S'', [3]), multi_union_pw_aff_eval m (''T'', [3])))
     (isl_schedule_node_band_get_partial_schedule ex_two_node) = Some ([Some 3], [Some 3]) \<and>
   map_option (\<lambda>m. (multi_union_pw_aff_eval m (''S'', [3]), multi_union_pw_aff_eval m (''T'', [3])))
     (shifted_schedule (tadashi_full_shift_val ex_two_node 0 5)) = Some ([Some 8], [Some 3]) \<and>
   map_option (\<lambda>m. (multi_union_pw_aff_eval m (''S'', [3]), multi_union_pw_aff_eval m (''T'', [3])))
     (shifted_schedule (tadashi_full_shift_val ex_two_node 1 5)) = Some ([Some 3], [Some 8])"
  by (simp add: tadashi_full_shift_val_def shift_partial_def shifted_schedule_def
      isl_schedule_node_band_get_partial_schedule_def node_tree_def ex_two_node_def ex_two_def
      union_pw_aff_domain_set_list_def isl_union_pw_aff_add_pw_aff_def pa_val_def
      isl_schedule_node_band_shift_def band_space_of_def isl_schedule_node_graft_tree_def
      isl_multi_union_pw_aff_add_def isl_union_pw_aff_add_def union_pw_aff_bin_def pw_aff_bin_def
      multi_union_pw_aff_eval_def union_pw_aff_eval_def space_of_def ex_in_1d_def Let_def
      child_tree_def replace_child_def only_child_def)

text \<open>
  C8.  For a cursor on a band with exactly one member and each of the four shift variants:
  when the variant returns a node, that node is at the same position and the output tuple
  identifier of the partial schedule of its band is the identifier the band had before.
  The variant does return a node when the band has one function per space, its output
  tuple has an identifier, the subtree is not anchored and, for a variant that adds a
  coordinate, the index, converted from \<open>long\<close> to \<open>int\<close>, is a coordinate of the selected
  piece.
\<close>

theorem shift_keeps_tuple_id:
  assumes focus: "node_tree n = Some (Band b c)"
    and one: "upa_list (mupa b) = [u]"
    and op: "shift \<in> {tadashi_partial_shift_val, tadashi_partial_shift_var,
                     tadashi_full_shift_val, tadashi_full_shift_var}"
  shows "(\<forall>n'. shift n pa_idx id_idx = Returned (Some n') \<longrightarrow>
            node_path n' = node_path n \<and>
            map_option tuple_id (isl_schedule_node_band_get_partial_schedule n')
              = Some (tuple_id (mupa b))) \<and>
         (distinct (map fst u) \<and> tuple_id (mupa b) \<noteq> None \<and> \<not> anchored c \<and>
          (shift \<in> {tadashi_partial_shift_val, tadashi_full_shift_val} \<or>
           (\<forall>k < length u. pa_idx = int k \<longrightarrow> 0 \<le> to_int id_idx \<and> to_int id_idx < int (snd (fst (u ! k)))))
          \<longrightarrow> (\<exists>n'. shift n pa_idx id_idx = Returned (Some n')))"
proof -
  have val_eq: "shift n pa_idx id_idx = shift_partial n pa_val pa_idx id_idx"
    if "shift \<in> {tadashi_partial_shift_val, tadashi_full_shift_val}"
    using that by (auto simp: tadashi_partial_shift_val_def tadashi_full_shift_val_def)
  from op have form: "shift n pa_idx id_idx = shift_partial n pa_val pa_idx id_idx
                    \<or> shift n pa_idx id_idx = shift_partial n pa_id pa_idx id_idx"
    by (auto simp: tadashi_partial_shift_val_def tadashi_partial_shift_var_def
        tadashi_full_shift_val_def tadashi_full_shift_var_def)
  have keep: "node_path n' = node_path n \<and>
            map_option tuple_id (isl_schedule_node_band_get_partial_schedule n')
              = Some (tuple_id (mupa b))"
    if "shift n pa_idx id_idx = Returned (Some n')" for n'
    using form that shift_partial_keeps_id [OF focus one] by metis
  have okv: "\<exists>n'. shift_partial n pa_val pa_idx id_idx = Returned (Some n')"
    if d: "distinct (map fst u)" and i: "tuple_id (mupa b) \<noteq> None" and a: "\<not> anchored c"
  proof (rule shift_partial_succeeds [OF focus one d i a])
    fix k
    show "\<exists>w. pa_val (union_pw_aff_domain_set_list u ! k) id_idx = Some w
                  \<and> fst w = fst (union_pw_aff_domain_set_list u ! k)"
      by (rule pa_val_ok)
  qed
  have oki: "\<exists>n'. shift_partial n pa_id pa_idx id_idx = Returned (Some n')"
    if d: "distinct (map fst u)" and i: "tuple_id (mupa b) \<noteq> None" and a: "\<not> anchored c"
      and r: "\<forall>k < length u. pa_idx = int k \<longrightarrow> 0 \<le> to_int id_idx \<and> to_int id_idx < int (snd (fst (u ! k)))"
  proof (rule shift_partial_succeeds [OF focus one d i a])
    fix k
    assume k: "k < length u" "pa_idx = int k"
    with r have "0 \<le> to_int id_idx"
      "to_int id_idx < int (snd (fst (union_pw_aff_domain_set_list u ! k)))"
      by (simp_all add: union_pw_aff_domain_set_list_def)
    then show "\<exists>w. pa_id (union_pw_aff_domain_set_list u ! k) id_idx = Some w
                  \<and> fst w = fst (union_pw_aff_domain_set_list u ! k)"
      by (rule pa_id_ok)
  qed
  have ok: "\<exists>n'. shift n pa_idx id_idx = Returned (Some n')"
    if d: "distinct (map fst u)" and i: "tuple_id (mupa b) \<noteq> None" and a: "\<not> anchored c"
      and r: "shift \<in> {tadashi_partial_shift_val, tadashi_full_shift_val} \<or>
           (\<forall>k < length u. pa_idx = int k \<longrightarrow> 0 \<le> to_int id_idx \<and> to_int id_idx < int (snd (fst (u ! k))))"
    using r
  proof
    assume "shift \<in> {tadashi_partial_shift_val, tadashi_full_shift_val}"
    then show ?thesis using val_eq okv [OF d i a] by simp
  next
    assume "\<forall>k < length u. pa_idx = int k \<longrightarrow> 0 \<le> to_int id_idx \<and> to_int id_idx < int (snd (fst (u ! k)))"
    then show ?thesis using form okv [OF d i a] oki [OF d i a] by metis
  qed
  show ?thesis using keep ok by blast
qed

theorem shift_keeps_tuple_id_witness:
  "tadashi_partial_shift_val \<in> {tadashi_partial_shift_val, tadashi_partial_shift_var,
                                tadashi_full_shift_val, tadashi_full_shift_var} \<and>
   tuple_id (mupa ex_two) = Some ''L_0'' \<and>
   map_option tuple_id (shifted_schedule (tadashi_partial_shift_val ex_two_node 0 5))
     = Some (Some ''L_0'') \<and>
   map_option tuple_id (shifted_schedule (tadashi_full_shift_var ex_two_node 1 0))
     = Some (Some ''L_0'')"
proof -
  let ?u = "[((''S'', 1::nat), \<lambda>x. if ex_in_1d x then Some (x ! 0) else None),
             ((''T'', 1), \<lambda>x. if ex_in_1d x then Some (x ! 0) else None)]"
  let ?c = "Sequence [Filter {x. fst x = ''S'' \<and> ex_in_1d (snd x)} Leaf,
                      Filter {x. fst x = ''T'' \<and> ex_in_1d (snd x)} Leaf]"
  have id: "tuple_id (mupa ex_two) = Some ''L_0''"
    by (simp add: ex_two_def)
  have pre: "distinct (map fst ?u) \<and> tuple_id (mupa ex_two) \<noteq> None \<and> \<not> anchored ?c"
    using id by simp
  have rng: "\<forall>k < length ?u. (1::int) = int k \<longrightarrow>
               0 \<le> to_int 0 \<and> to_int 0 < int (snd (fst (?u ! k)))"
    by (simp add: less_Suc_eq to_int_def)
  have val: "tadashi_partial_shift_val \<in> {tadashi_partial_shift_val, tadashi_partial_shift_var,
                                tadashi_full_shift_val, tadashi_full_shift_var}"
    by simp
  have var: "tadashi_full_shift_var \<in> {tadashi_partial_shift_val, tadashi_partial_shift_var,
                                tadashi_full_shift_val, tadashi_full_shift_var}"
    by simp
  from shift_keeps_tuple_id [OF ex_two_focus ex_two_pieces val, of 0 5] pre
  obtain n1 where n1: "tadashi_partial_shift_val ex_two_node 0 5 = Returned (Some n1)"
    "map_option tuple_id (isl_schedule_node_band_get_partial_schedule n1)
       = Some (tuple_id (mupa ex_two))"
    by blast
  from shift_keeps_tuple_id [OF ex_two_focus ex_two_pieces var, of 1 0] pre rng
  obtain n2 where n2: "tadashi_full_shift_var ex_two_node 1 0 = Returned (Some n2)"
    "map_option tuple_id (isl_schedule_node_band_get_partial_schedule n2)
       = Some (tuple_id (mupa ex_two))"
    by blast
  show ?thesis
    using n1 n2 id by (simp add: shifted_schedule_def)
qed

text \<open>
  C10.  For a cursor on a band and each of the four shift variants: when the partial
  schedule of the band has exactly one member the assertion does not fire, and when it has
  any other number of members the variant aborts on the assertion.
\<close>

theorem shift_aborts_iff_not_one_member:
  assumes "node_tree n = Some (Band b c)"
    and "shift \<in> {tadashi_partial_shift_val, tadashi_partial_shift_var,
                 tadashi_full_shift_val, tadashi_full_shift_var}"
  shows "(length (upa_list (mupa b)) = 1 \<longrightarrow> shift n pa_idx id_idx \<noteq> Aborted) \<and>
         (length (upa_list (mupa b)) \<noteq> 1 \<longrightarrow> shift n pa_idx id_idx = Aborted)"
  using assms(2) shift_partial_aborts_iff [OF assms(1)]
  by (auto simp: tadashi_partial_shift_val_def tadashi_partial_shift_var_def
      tadashi_full_shift_val_def tadashi_full_shift_var_def)

theorem shift_aborts_iff_not_one_member_witness:
  "node_tree ex_two_node \<noteq> None \<and> length (upa_list (mupa ex_two)) = 1 \<and>
   tadashi_full_shift_val ex_two_node 0 5 \<noteq> Aborted \<and>
   length (upa_list (mupa ex_band_2d)) = 2 \<and>
   tadashi_partial_shift_var ex_node_2d 0 0 = Aborted"
  using shift_aborts_iff_not_one_member [OF ex_two_focus, of tadashi_full_shift_val 0 5]
    shift_aborts_iff_not_one_member [OF ex_2d_focus, of tadashi_partial_shift_var 0 0]
    ex_two_focus
  by (simp add: ex_two_def ex_band_2d_def)

end
